theory Spec2Isabelle
  imports Main
begin

section \<open>JavaScript values used by the admin routes\<close>

text \<open>
  The text fields of a multipart form, the stored paths and the descriptive fields of
  the documents are strings that may be absent (\<open>undefined\<close> or \<open>null\<close>): a
  \<open>string option\<close>. Such a value is truthy when it is a non-empty string.
\<close>

definition truthy :: "string option \<Rightarrow> bool" where
  "truthy v = (case v of None \<Rightarrow> False | Some s \<Rightarrow> s \<noteq> [])"

text \<open>\<open>a || b\<close> on such values.\<close>

definition js_or :: "string option \<Rightarrow> string option \<Rightarrow> string option" where
  "js_or a b = (if truthy a then a else b)"

text \<open>\<open>s.startsWith(p)\<close>.\<close>

definition startsWith :: "string \<Rightarrow> string \<Rightarrow> bool" where
  "startsWith s p = (take (length p) s = p)"

text \<open>The decimal rendering of a non-negative integer, as a template literal prints it.\<close>

fun show_nat :: "nat \<Rightarrow> string" where
  "show_nat n =
     (if n < 10 then [''0123456789'' ! n]
      else show_nat (n div 10) @ [''0123456789'' ! (n mod 10)])"

declare show_nat.simps [simp del]

section \<open>Node's \<open>path.join\<close> (POSIX)\<close>

text \<open>\<open>s.split("/")\<close>: the segments between slashes; never the empty list.\<close>

fun split_slash :: "string \<Rightarrow> string list" where
  "split_slash [] = [[]]"
| "split_slash (c # cs) =
     (if c = CHR ''/'' then [] # split_slash cs
      else (case split_slash cs of
              [] \<Rightarrow> [[c]]
            | seg # segs \<Rightarrow> (c # seg) # segs))"

fun join_slash :: "string list \<Rightarrow> string" where
  "join_slash [] = []"
| "join_slash [seg] = seg"
| "join_slash (seg # segs) = seg @ CHR ''/'' # join_slash segs"

text \<open>
  \<open>normalizeString\<close>: empty and \<open>.\<close> segments are dropped, \<open>..\<close> removes the
  segment before it; above the start it is kept for a relative path
  (\<open>allowAboveRoot\<close>) and dropped for an absolute one. \<open>res\<close> is the result so far,
  last segment first.
\<close>

fun normalizeString :: "bool \<Rightarrow> string list \<Rightarrow> string list \<Rightarrow> string list" where
  "normalizeString allowAboveRoot res [] = rev res"
| "normalizeString allowAboveRoot res (seg # segs) =
     (if seg = [] \<or> seg = ''.'' then normalizeString allowAboveRoot res segs
      else if seg = ''..'' then
        (case res of
           [] \<Rightarrow>
             if allowAboveRoot then normalizeString allowAboveRoot [''..''] segs
             else normalizeString allowAboveRoot [] segs
         | t # res' \<Rightarrow>
             if t \<noteq> ''..'' then normalizeString allowAboveRoot res' segs
             else if allowAboveRoot then normalizeString allowAboveRoot (''..'' # res) segs
             else normalizeString allowAboveRoot res segs)
      else normalizeString allowAboveRoot (seg # res) segs)"

definition normalize :: "string \<Rightarrow> string" where
  "normalize p =
     (if p = [] then ''.''
      else
        let isAbsolute = (hd p = CHR ''/'');
            trailingSeparator = (last p = CHR ''/'');
            body = join_slash (normalizeString (\<not> isAbsolute) [] (split_slash p))
        in if body = [] then
             (if isAbsolute then ''/'' else if trailingSeparator then ''./'' else ''.'')
           else (if isAbsolute then ''/'' else []) @ body
                @ (if trailingSeparator then ''/'' else []))"

definition path_join :: "string list \<Rightarrow> string" where
  "path_join args =
     (let joined = join_slash (filter (\<lambda>a. a \<noteq> []) args)
      in if joined = [] then ''.'' else normalize joined)"

section \<open>Data model\<close>

text \<open>
  Modelled from the spec: the Mongoose models (\<open>models/Profile\<close>, \<open>models/User\<close>,
  \<open>models/Education\<close>, \<open>models/Experience\<close>) are not among the sources. A Profile
  has an owner, a required name, four nullable paths and a nullable free text; a User
  has an email and the descriptive fields that the profile update merges. The field
  names are the ones the routes read and write.
\<close>

record profile =
  userId :: string
  name :: string
  profilePic :: "string option"
  profilePic2 :: "string option"
  pdf :: "string option"
  video :: "string option"
  aboutText :: "string option"

record user =
  name :: "string option"
  email :: string
  phoneNumber :: "string option"
  degree :: "string option"
  birthday :: "string option"
  address :: "string option"
  experience :: "string option"

text \<open>
  A JSON value, as \<open>express.json()\<close> hands it to the education and experience
  routes. An object is the list of its own properties, each key once. Numbers are
  integers here: the routes only test a number for being zero.
\<close>

datatype json =
    JNull
  | JBool bool
  | JNum int
  | JStr string
  | JArr "json list"
  | JObj "(string \<times> json) list"

type_synonym document = "(string \<times> json) list"

text \<open>
  The state the routes act on: the storage backend and the four collections. The
  storage backend is the set of its regular files and the set of its directories, both by
  absolute path without a trailing slash. The Profile collection is keyed by
  \<open>userId\<close> (at most one profile per user) and the User collection by id; the
  Education and Experience collections are lists of documents in insertion order.
\<close>

record state =
  fs :: "string set"
  dirs :: "string set"
  profiles :: "string \<rightharpoonup> profile"
  users :: "string \<rightharpoonup> user"
  educations :: "document list"
  experiences :: "document list"

text \<open>
  The process environment: \<open>__dirname\<close> of the routes file and the working directory
  against which relative paths are resolved.
\<close>

record env =
  dirname :: string
  cwd :: string

text \<open>
  The exceptions of this model: no such file or directory, the target is a directory,
  and a property read on \<open>undefined\<close>.
\<close>

datatype error = ENOENT | EISDIR | TypeError

section \<open>Storage backend\<close>

text \<open>A directory is found with or without a trailing slash.\<close>

definition without_trailing :: "string \<Rightarrow> string" where
  "without_trailing p = (if 1 < length p \<and> last p = CHR ''/'' then butlast p else p)"

text \<open>\<open>fs.existsSync\<close>: true for a regular file and for a directory.\<close>

definition existsSync :: "string set \<Rightarrow> string set \<Rightarrow> string \<Rightarrow> bool" where
  "existsSync files ds p = (p \<in> files \<or> without_trailing p \<in> ds)"

text \<open>
  \<open>fs.unlinkSync\<close> removes a regular file; it throws on a directory and when there is
  nothing at the path.
\<close>

definition unlinkSync :: "string set \<Rightarrow> string set \<Rightarrow> string \<Rightarrow> error + string set" where
  "unlinkSync files ds p =
     (if without_trailing p \<in> ds then Inl EISDIR
      else if p \<in> files then Inr (files - {p})
      else Inl ENOENT)"

text \<open>The directory that holds a path: the path up to its last slash.\<close>

definition parent_dir :: "string \<Rightarrow> string" where
  "parent_dir p =
     (let d = rev (drop 1 (dropWhile (\<lambda>c. c \<noteq> CHR ''/'') (rev p)))
      in if d = [] then ''/'' else d)"

text \<open>
  Opening a file for writing, as \<open>fs.createWriteStream\<close> does for the disk storage:
  the directory that holds the file must be there, and the path must not be a directory. A
  file already at the path is overwritten.
\<close>

definition write_file :: "state \<Rightarrow> string \<Rightarrow> error + state" where
  "write_file s p =
     (if parent_dir p \<notin> dirs s then Inl ENOENT
      else if without_trailing p \<in> dirs s then Inl EISDIR
      else Inr (s\<lparr>fs := insert p (fs s)\<rparr>))"

text \<open>
  \<open>fs.mkdirSync(folder, { recursive: true })\<close> creates the folder and the folders above
  it that are missing: \<open>dir_chain\<close> lists a path and the paths above it.
\<close>

fun chain :: "string \<Rightarrow> string \<Rightarrow> string list" where
  "chain acc [] = [rev acc]"
| "chain acc (c # cs) =
     (if c = CHR ''/'' \<and> acc \<noteq> [] then rev acc # chain (c # acc) cs
      else chain (c # acc) cs)"

definition dir_chain :: "string \<Rightarrow> string list" where
  "dir_chain p = chain [] p"

definition mkdirSync_recursive :: "string \<Rightarrow> string set \<Rightarrow> string set" where
  "mkdirSync_recursive p ds = ds \<union> set (dir_chain p)"

section \<open>Folders created when the module is loaded\<close>

text \<open>
  \<open>["uploads/images", "uploads/pdfs", "uploads/videos"].forEach(...)\<close>: each of the
  three folders is created under the working directory unless something is there.
  \<open>uploads/others\<close> is not among them.
\<close>

definition ensure_folders :: "env \<Rightarrow> state \<Rightarrow> state" where
  "ensure_folders e s =
     foldl (\<lambda>s folder.
              if \<not> existsSync (fs s) (dirs s) (path_join [cwd e, folder])
              then s\<lparr>dirs := mkdirSync_recursive (path_join [cwd e, folder]) (dirs s)\<rparr>
              else s)
           s [''uploads/images'', ''uploads/pdfs'', ''uploads/videos'']"

section \<open>Stale-file reclaimer\<close>

text \<open>\<open>path.join(__dirname, "../../", filePath)\<close>.\<close>

definition fullPath :: "env \<Rightarrow> string \<Rightarrow> string" where
  "fullPath e filePath = path_join [dirname e, ''../../'', filePath]"

text \<open>The helper \<open>deleteOldFile\<close>; \<open>!filePath\<close> holds for null, undefined and "".\<close>

definition deleteOldFile :: "env \<Rightarrow> string option \<Rightarrow> state \<Rightarrow> error + state" where
  "deleteOldFile e filePath s =
     (if \<not> truthy filePath then Inr s
      else case filePath of
             None \<Rightarrow> Inr s
           | Some p \<Rightarrow>
               if existsSync (fs s) (dirs s) (fullPath e p) then
                 (case unlinkSync (fs s) (dirs s) (fullPath e p) of
                    Inl err \<Rightarrow> Inl err
                  | Inr files \<Rightarrow> Inr (s\<lparr>fs := files\<rparr>))
               else Inr s)"

section \<open>File classifier and store (the multer disk storage)\<close>

text \<open>A file part of the multipart form, as the storage callbacks see it.\<close>

record upload =
  mimetype :: string
  originalname :: string

text \<open>The four file fields that \<open>upload.fields\<close> accepts, one file each.\<close>

datatype slot = ProfilePic | ProfilePic2 | ResumePdf | Video

text \<open>The \<open>destination\<close> callback.\<close>

definition storage_destination :: "upload \<Rightarrow> string" where
  "storage_destination file =
     (let type = mimetype file
      in if startsWith type ''image/'' then ''uploads/images''
         else if type = ''application/pdf'' then ''uploads/pdfs''
         else if startsWith type ''video/'' then ''uploads/videos''
         else ''uploads/others'')"

text \<open>
  The characters that \<open>\s\<close> matches among the 8-bit characters of a \<open>string\<close>:
  tab, line feed, vertical tab, form feed, carriage return, space and no-break space.
\<close>

definition is_space :: "char \<Rightarrow> bool" where
  "is_space c = (c \<in> set [CHR 0x09, CHR 0x0A, CHR 0x0B, CHR 0x0C, CHR 0x0D, CHR 0x20, CHR 0xA0])"

text \<open>\<open>s.replace(/\s+/g, "_")\<close>: each maximal run of whitespace becomes one underscore.\<close>

function replace_ws :: "string \<Rightarrow> string" where
  "replace_ws [] = []"
| "replace_ws (c # cs) =
     (if is_space c then CHR ''_'' # replace_ws (dropWhile is_space cs)
      else c # replace_ws cs)"
  by pat_completeness auto
termination
  by (relation "measure length") (auto simp add: le_imp_less_Suc length_dropWhile_le)

text \<open>The \<open>filename\<close> callback; \<open>now\<close> is what \<open>Date.now()\<close> returns.\<close>

definition storage_filename :: "nat \<Rightarrow> upload \<Rightarrow> string" where
  "storage_filename now file =
     (let safeName = replace_ws (originalname file)
      in show_nat now @ ''-'' @ safeName)"

text \<open>What the disk storage attaches to \<open>req.files\<close> for a stored file.\<close>

record multer_file =
  destination :: string
  filename :: string
  path :: string

definition stored_as :: "nat \<Rightarrow> upload \<Rightarrow> multer_file" where
  "stored_as now file =
     \<lparr>destination = storage_destination file,
      filename = storage_filename now file,
      path = path_join [storage_destination file, storage_filename now file]\<rparr>"

text \<open>The absolute location of a relative path: the working directory comes first.\<close>

definition disk_location :: "env \<Rightarrow> multer_file \<Rightarrow> string" where
  "disk_location e f = path_join [cwd e, path f]"

definition all_slots :: "slot list" where
  "all_slots = [ProfilePic, ProfilePic2, ResumePdf, Video]"

text \<open>
  The disk storage on the file parts of a form, taken one after the other. Each file
  is written to its generated path; \<open>stored\<close> lists what this request has written
  so far. The disk storage does not create the folder. When a write fails, multer
  removes the files that the request has written and passes the error on.
\<close>

fun store_files ::
  "env \<Rightarrow> (slot \<Rightarrow> nat) \<Rightarrow> (slot \<rightharpoonup> upload) \<Rightarrow> slot list \<Rightarrow> string list \<Rightarrow> state
     \<Rightarrow> error option \<times> state" where
  "store_files e now parts [] stored s = (None, s)"
| "store_files e now parts (sl # sls) stored s =
     (case parts sl of
        None \<Rightarrow> store_files e now parts sls stored s
      | Some file \<Rightarrow>
          (case write_file s (disk_location e (stored_as (now sl) file)) of
             Inl err \<Rightarrow> (Some err, s\<lparr>fs := fs s - set stored\<rparr>)
           | Inr s' \<Rightarrow>
               store_files e now parts sls
                 (disk_location e (stored_as (now sl) file) # stored) s'))"

text \<open>
  The middleware \<open>upload.fields([...])\<close>. It runs before the route's handler.
  \<open>req.files\<close> lists what was stored; \<open>now sl\<close> is the clock reading when the file of
  slot \<open>sl\<close> is named. The first component is the error that the middleware hands to
  \<open>next\<close>, if any.
\<close>

definition upload_fields ::
  "env \<Rightarrow> (slot \<Rightarrow> nat) \<Rightarrow> (slot \<rightharpoonup> upload) \<Rightarrow> state
     \<Rightarrow> error option \<times> (slot \<rightharpoonup> multer_file) \<times> state" where
  "upload_fields e now parts s =
     (let files = (\<lambda>sl. map_option (stored_as (now sl)) (parts sl))
      in case store_files e now parts all_slots [] s of
           (err, s') \<Rightarrow> (err, files, s'))"

section \<open>Profile merge engine: \<open>POST /update-profile\<close>\<close>

text \<open>The text fields of the multipart form (\<open>req.body\<close>).\<close>

record form =
  name :: "string option"
  phoneNumber :: "string option"
  degree :: "string option"
  birthday :: "string option"
  address :: "string option"
  experience :: "string option"
  aboutText :: "string option"

text \<open>
  What a response carries. \<open>ServerError\<close> is the body of a handler's \<open>catch\<close>;
  \<open>Unhandled\<close> is the answer of Express to an error that a middleware passed on.
\<close>

datatype payload =
    Message string
  | Saved profile
  | ErrorText string
  | ServerError error
  | Unhandled error
  | Documents "document list"

datatype response = Response (status: nat) (payload: payload)

text \<open>\<open>req.files[field]?.[0]?.filename || null\<close>.\<close>

definition uploaded_filename :: "(slot \<rightharpoonup> multer_file) \<Rightarrow> slot \<Rightarrow> string option" where
  "uploaded_filename files sl =
     (case files sl of
        None \<Rightarrow> None
      | Some f \<Rightarrow> if filename f = [] then None else Some (filename f))"

text \<open>\<open>if (newFile && old) deleteOldFile(old)\<close>.\<close>

definition reclaim :: "env \<Rightarrow> string option \<Rightarrow> string option \<Rightarrow> state \<Rightarrow> error + state" where
  "reclaim e newFile old s =
     (if truthy newFile \<and> truthy old then deleteOldFile e old s else Inr s)"

text \<open>\<open>newFile ? prefix + newFile : old\<close>.\<close>

definition new_or_old :: "string \<Rightarrow> string option \<Rightarrow> string option \<Rightarrow> string option" where
  "new_or_old prefix newFile old =
     (if truthy newFile then map_option (\<lambda>f. prefix @ f) newFile else old)"

text \<open>The block \<open>if (user) { ... await user.save(); }\<close>.\<close>

definition update_user :: "string \<Rightarrow> user option \<Rightarrow> form \<Rightarrow> state \<Rightarrow> state" where
  "update_user uid found b s =
     (case found of
        None \<Rightarrow> s
      | Some u \<Rightarrow>
          s\<lparr>users := (users s)(uid \<mapsto>
               u\<lparr>user.name := js_or (form.name b) (user.name u),
                 user.phoneNumber := js_or (form.phoneNumber b) (user.phoneNumber u),
                 user.degree := js_or (form.degree b) (user.degree u),
                 user.birthday := js_or (form.birthday b) (user.birthday u),
                 user.address := js_or (form.address b) (user.address u),
                 user.experience := js_or (form.experience b) (user.experience u)\<rparr>)\<rparr>)"

text \<open>
  The four guarded calls of \<open>deleteOldFile\<close>, in the order of the source. An
  exception ends the sequence; the state is then the one reached so far.
\<close>

definition delete_old_files ::
  "env \<Rightarrow> (slot \<rightharpoonup> multer_file) \<Rightarrow> profile \<Rightarrow> state \<Rightarrow> error option \<times> state" where
  "delete_old_files e files prof s =
     (case reclaim e (uploaded_filename files ProfilePic) (profilePic prof) s of
        Inl err \<Rightarrow> (Some err, s)
      | Inr s1 \<Rightarrow>
     (case reclaim e (uploaded_filename files ProfilePic2) (profilePic2 prof) s1 of
        Inl err \<Rightarrow> (Some err, s1)
      | Inr s2 \<Rightarrow>
     (case reclaim e (uploaded_filename files ResumePdf) (pdf prof) s2 of
        Inl err \<Rightarrow> (Some err, s2)
      | Inr s3 \<Rightarrow>
     (case reclaim e (uploaded_filename files Video) (video prof) s3 of
        Inl err \<Rightarrow> (Some err, s3)
      | Inr s4 \<Rightarrow> (None, s4)))))"

text \<open>The assignments under \<open>// Update existing profile\<close>.\<close>

definition updated_profile :: "profile \<Rightarrow> string \<Rightarrow> (slot \<rightharpoonup> multer_file) \<Rightarrow> form \<Rightarrow> profile" where
  "updated_profile prof nm files b =
     prof\<lparr>profile.name := nm,
          profilePic :=
            new_or_old ''/uploads/images/'' (uploaded_filename files ProfilePic) (profilePic prof),
          profilePic2 :=
            new_or_old ''/uploads/images/'' (uploaded_filename files ProfilePic2) (profilePic2 prof),
          pdf := new_or_old ''/uploads/pdfs/'' (uploaded_filename files ResumePdf) (pdf prof),
          video := new_or_old ''/uploads/videos/'' (uploaded_filename files Video) (video prof),
          profile.aboutText := js_or (form.aboutText b) (profile.aboutText prof)\<rparr>"

text \<open>The document built under \<open>// Create new profile\<close>.\<close>

definition new_profile :: "string \<Rightarrow> string \<Rightarrow> (slot \<rightharpoonup> multer_file) \<Rightarrow> form \<Rightarrow> profile" where
  "new_profile uid nm files b =
     \<lparr>userId = uid,
      profile.name = nm,
      profilePic = new_or_old ''/uploads/images/'' (uploaded_filename files ProfilePic) None,
      profilePic2 = new_or_old ''/uploads/images/'' (uploaded_filename files ProfilePic2) None,
      pdf = new_or_old ''/uploads/pdfs/'' (uploaded_filename files ResumePdf) None,
      video = new_or_old ''/uploads/videos/'' (uploaded_filename files Video) None,
      profile.aboutText = form.aboutText b\<rparr>"

text \<open>
  The handler. \<open>req_user\<close> is the id of \<open>req.user\<close> when the authentication
  middleware attached one. An exception thrown inside \<open>try\<close> ends the request with
  status 500 and leaves the state as it was when it was thrown. The database calls are
  taken to succeed. The User document is read before the Profile is written.
\<close>

definition update_profile_handler ::
  "env \<Rightarrow> string option \<Rightarrow> form \<Rightarrow> (slot \<rightharpoonup> multer_file) \<Rightarrow> state \<Rightarrow> response \<times> state" where
  "update_profile_handler e req_user b files s =
     (case req_user of
        None \<Rightarrow> (Response 401 (Message ''Unauthorized: Missing user ID''), s)
      | Some uid \<Rightarrow>
          if uid = [] then (Response 401 (Message ''Unauthorized: Missing user ID''), s)
          else
            (case form.name b of
               None \<Rightarrow> (Response 400 (Message ''Name is required''), s)
             | Some nm \<Rightarrow>
                 if nm = [] then (Response 400 (Message ''Name is required''), s)
                 else
                   let found = users s uid
                   in (case profiles s uid of
                         Some prof \<Rightarrow>
                           (case delete_old_files e files prof s of
                              (Some err, s') \<Rightarrow> (Response 500 (ServerError err), s')
                            | (None, s') \<Rightarrow>
                                let saved = updated_profile prof nm files b
                                in (Response 200 (Saved saved),
                                    update_user uid found b
                                      (s'\<lparr>profiles := (profiles s')(uid \<mapsto> saved)\<rparr>)))
                       | None \<Rightarrow>
                           let saved = new_profile uid nm files b
                           in (Response 200 (Saved saved),
                               update_user uid found b
                                 (s\<lparr>profiles := (profiles s)(uid \<mapsto> saved)\<rparr>)))))"

text \<open>
  The route: the upload middleware, then the handler; an error of the middleware ends
  the request with status 500 before the handler runs. The request is a multipart form
  with at most one file in each of the four declared fields and no other file field.
  \<open>caller\<close> is what the authentication middleware, which runs first and is not among
  the sources, left in \<open>req.user\<close>.
\<close>

record request =
  caller :: "string option"
  body :: form
  file_parts :: "slot \<rightharpoonup> upload"

definition update_profile ::
  "env \<Rightarrow> (slot \<Rightarrow> nat) \<Rightarrow> request \<Rightarrow> state \<Rightarrow> response \<times> state" where
  "update_profile e now req s =
     (case upload_fields e now (file_parts req) s of
        (Some err, files, s') \<Rightarrow> (Response 500 (Unhandled err), s')
      | (None, files, s') \<Rightarrow> update_profile_handler e (caller req) (body req) files s')"

section \<open>Repeatable-record replacer: education and experience\<close>

text \<open>Truthiness of a JSON value.\<close>

fun js_truthy :: "json \<Rightarrow> bool" where
  "js_truthy JNull = False"
| "js_truthy (JBool b) = b"
| "js_truthy (JNum n) = (n \<noteq> 0)"
| "js_truthy (JStr s) = (s \<noteq> [])"
| "js_truthy (JArr xs) = True"
| "js_truthy (JObj kvs) = True"

text \<open>\<open>!doc.key\<close>: the property is absent or holds a falsy value.\<close>

definition lacks :: "document \<Rightarrow> string \<Rightarrow> bool" where
  "lacks doc key = (case map_of doc key of None \<Rightarrow> True | Some v \<Rightarrow> \<not> js_truthy v)"

text \<open>
  \<open>{...entry}\<close>: the own enumerable properties of a value. An object gives its
  properties, an array and a string their elements under their indices, anything else
  nothing.
\<close>

fun own_props :: "json \<Rightarrow> document" where
  "own_props (JObj kvs) = kvs"
| "own_props (JArr xs) = zip (map show_nat [0..<length xs]) xs"
| "own_props (JStr s) = zip (map show_nat [0..<length s]) (map (\<lambda>c. JStr [c]) s)"
| "own_props v = []"

text \<open>Setting a property: in place when the key is there, at the end otherwise.\<close>

fun set_prop :: "string \<Rightarrow> json \<Rightarrow> document \<Rightarrow> document" where
  "set_prop k v [] = [(k, v)]"
| "set_prop k v ((k', v') # kvs) =
     (if k' = k then (k, v) # kvs else (k', v') # set_prop k v kvs)"

text \<open>\<open>{...entry, userId}\<close>.\<close>

definition with_userId :: "string \<Rightarrow> json \<Rightarrow> document" where
  "with_userId uid entry = set_prop ''userId'' (JStr uid) (own_props entry)"

text \<open>
  The normalisation to an array: an array as it is, an object as the one-element array,
  anything else is refused.
\<close>

definition normalize_body :: "json \<Rightarrow> json list option" where
  "normalize_body newData =
     (case newData of
        JArr xs \<Rightarrow> Some xs
      | JObj kvs \<Rightarrow> Some [JObj kvs]
      | _ \<Rightarrow> None)"

text \<open>The validation loops: \<open>True\<close> when the loop ends without returning.\<close>

fun education_valid :: "document list \<Rightarrow> bool" where
  "education_valid [] = True"
| "education_valid (edu # rest) =
     (if lacks edu ''degreeName'' \<or> lacks edu ''collegeName''
         \<or> lacks edu ''fromYear'' \<or> lacks edu ''toYear''
      then False else education_valid rest)"

fun experience_valid :: "document list \<Rightarrow> bool" where
  "experience_valid [] = True"
| "experience_valid (exp # rest) =
     (if lacks exp ''designation'' \<or> lacks exp ''companyName''
         \<or> lacks exp ''fromTime'' \<or> lacks exp ''toTime''
      then False else experience_valid rest)"

text \<open>
  Modelled from the spec: \<open>Model.deleteMany({ userId })\<close> and
  \<open>Model.insertMany(docs)\<close> act through the Education and Experience models, which
  are not among the sources. Deleting removes every document of the owner; inserting
  adds the documents handed over, in order. The identifiers that the database generates
  are not part of the model, and both calls are taken to succeed.
\<close>

definition deleteMany :: "string \<Rightarrow> document list \<Rightarrow> document list" where
  "deleteMany uid coll = filter (\<lambda>doc. map_of doc ''userId'' \<noteq> Some (JStr uid)) coll"

definition insertMany :: "document list \<Rightarrow> document list \<Rightarrow> document list" where
  "insertMany docs coll = coll @ docs"

text \<open>
  \<open>POST /add-education\<close>. \<open>req_user\<close> is the id of \<open>req.user\<close> when the
  authentication middleware attached one; \<open>req.user.id\<close> throws a \<open>TypeError\<close>
  when \<open>req.user\<close> is absent.
\<close>

definition add_education :: "string option \<Rightarrow> json \<Rightarrow> state \<Rightarrow> response \<times> state" where
  "add_education req_user newData s =
     (case normalize_body newData of
        None \<Rightarrow> (Response 400 (ErrorText ''Invalid education data format''), s)
      | Some entries \<Rightarrow>
          (case req_user of
             None \<Rightarrow> (Response 500 (ServerError TypeError), s)
           | Some uid \<Rightarrow>
               let educationWithUser = map (with_userId uid) entries
               in if \<not> education_valid educationWithUser then
                    (Response 400 (ErrorText
                       ''Each education object must include degreeName, collegeName, fromYear, and toYear''),
                     s)
                  else
                    let s1 = s\<lparr>educations := deleteMany uid (educations s)\<rparr>;
                        s2 = s1\<lparr>educations := insertMany educationWithUser (educations s1)\<rparr>
                    in (Response 200 (Documents educationWithUser), s2)))"

text \<open>\<open>POST /add-experience\<close>.\<close>

definition add_experience :: "string option \<Rightarrow> json \<Rightarrow> state \<Rightarrow> response \<times> state" where
  "add_experience req_user newData s =
     (case normalize_body newData of
        None \<Rightarrow> (Response 400 (ErrorText ''Invalid Experience data format''), s)
      | Some entries \<Rightarrow>
          (case req_user of
             None \<Rightarrow> (Response 500 (ServerError TypeError), s)
           | Some uid \<Rightarrow>
               let experienceWithUser = map (with_userId uid) entries
               in if \<not> experience_valid experienceWithUser then
                    (Response 400 (ErrorText
                       ''Each Experience object must include Disignation, Company Name and Time.''),
                     s)
                  else
                    let s1 = s\<lparr>experiences := deleteMany uid (experiences s)\<rparr>;
                        s2 = s1\<lparr>experiences := insertMany experienceWithUser (experiences s1)\<rparr>
                    in (Response 200 (Documents experienceWithUser), s2)))"

text \<open>\<open>GET /get-education\<close> and \<open>GET /get-experience\<close>: \<open>Model.find()\<close>, unfiltered.\<close>

definition get_education :: "state \<Rightarrow> response" where
  "get_education s = Response 200 (Documents (educations s))"

definition get_experience :: "state \<Rightarrow> response" where
  "get_experience s = Response 200 (Documents (experiences s))"

text \<open>The keys that the two validation loops test.\<close>

definition education_fields :: "string list" where
  "education_fields = [''degreeName'', ''collegeName'', ''fromYear'', ''toYear'']"

definition experience_fields :: "string list" where
  "experience_fields = [''designation'', ''companyName'', ''fromTime'', ''toTime'']"

section \<open>Example data\<close>

definition app_env :: env where
  "app_env = \<lparr>dirname = ''/app/routes/admin'', cwd = ''/app''\<rparr>"

definition u1_profile :: profile where
  "u1_profile =
     \<lparr>userId = ''u1'', profile.name = ''Ann'',
      profilePic = Some ''/uploads/images/1-old.png'', profilePic2 = None,
      pdf = Some ''/uploads/pdfs/1-cv.pdf'', video = None,
      profile.aboutText = Some ''hello''\<rparr>"

definition u1_user :: user where
  "u1_user =
     \<lparr>user.name = Some ''Ann'', email = ''ann@example.org'',
      user.phoneNumber = Some ''555'', user.degree = None, user.birthday = None,
      user.address = Some ''Street 1'', user.experience = None\<rparr>"

definition bsc :: json where
  "bsc = JObj [(''degreeName'', JStr ''BSc''), (''collegeName'', JStr ''X''),
               (''fromYear'', JNum 2018), (''toYear'', JNum 2022)]"

definition s0 :: state where
  "s0 =
     \<lparr>fs = {''/app/uploads/images/1-old.png'', ''/app/uploads/pdfs/1-cv.pdf''},
      dirs = {''/app'', ''/app/routes'', ''/app/routes/admin'', ''/app/uploads'',
              ''/app/uploads/images'', ''/app/uploads/pdfs'', ''/app/uploads/videos''},
      profiles = [''u1'' \<mapsto> u1_profile],
      users = [''u1'' \<mapsto> u1_user],
      educations =
        [[(''degreeName'', JStr ''MSc''), (''collegeName'', JStr ''Y''),
          (''fromYear'', JNum 2010), (''toYear'', JNum 2012), (''userId'', JStr ''u1'')],
         [(''degreeName'', JStr ''BA''), (''collegeName'', JStr ''Z''),
          (''fromYear'', JNum 2001), (''toYear'', JNum 2004), (''userId'', JStr ''u2'')]],
      experiences = []\<rparr>"

definition text_fields :: "string option \<Rightarrow> form" where
  "text_fields nm =
     \<lparr>form.name = nm, form.phoneNumber = Some [], form.degree = Some ''PhD'',
      form.birthday = None, form.address = Some [], form.experience = None,
      form.aboutText = Some []\<rparr>"

definition plain_update :: request where
  "plain_update =
     \<lparr>caller = Some ''u1'', body = text_fields (Some ''Ann B''), file_parts = Map.empty\<rparr>"


definition incomplete_education :: json where
  "incomplete_education =
     JArr [bsc, JObj [(''degreeName'', JStr ''MA''), (''fromYear'', JNum 2023),
                      (''toYear'', JNum 2024)]]"

definition incomplete_experience :: json where
  "incomplete_experience =
     JObj [(''designation'', JStr ''Engineer''), (''companyName'', JStr []),
           (''fromTime'', JStr ''2020''), (''toTime'', JStr ''2021'')]"

definition image_file :: upload where
  "image_file = \<lparr>mimetype = ''image/png'', originalname = ''me.png''\<rparr>"

definition pdf_file :: upload where
  "pdf_file = \<lparr>mimetype = ''application/pdf'', originalname = ''cv.pdf''\<rparr>"

definition video_file :: upload where
  "video_file = \<lparr>mimetype = ''video/mp4'', originalname = ''my  first clip.mp4''\<rparr>"

definition text_file :: upload where
  "text_file = \<lparr>mimetype = ''text/plain'', originalname = ''notes.txt''\<rparr>"

definition pdf_as_picture :: "string \<Rightarrow> request" where
  "pdf_as_picture uid =
     \<lparr>caller = Some uid, body = text_fields (Some ''Bob''),
      file_parts = [ProfilePic \<mapsto> pdf_file]\<rparr>"

definition new_picture :: request where
  "new_picture =
     \<lparr>caller = Some ''u1'', body = text_fields (Some ''Ann''),
      file_parts = [ProfilePic \<mapsto> image_file]\<rparr>"



definition after_pdf :: state where
  "after_pdf =
     s0\<lparr>fs := {''/app/uploads/pdfs/2-cv.pdf'', ''/app/uploads/pdfs/1-cv.pdf''},
        profiles := [''u1'' \<mapsto> u1_profile\<lparr>profile.name := ''Bob'',
                                            profilePic := Some ''/uploads/images/2-cv.pdf''\<rparr>],
        users := [''u1'' \<mapsto> u1_user\<lparr>user.name := Some ''Bob'', user.degree := Some ''PhD''\<rparr>]\<rparr>"

section \<open>Auxiliary notions for the proofs\<close>

text \<open>The file that a guarded \<open>deleteOldFile\<close> call looks for.\<close>

definition reclaimed :: "env \<Rightarrow> string option \<Rightarrow> string option \<Rightarrow> string set" where
  "reclaimed e newFile old =
     (case old of
        None \<Rightarrow> {}
      | Some p \<Rightarrow> if truthy newFile \<and> p \<noteq> [] then {fullPath e p} else {})"

text \<open>Where the upload middleware writes the file parts of a form.\<close>

definition written :: "env \<Rightarrow> (slot \<Rightarrow> nat) \<Rightarrow> (slot \<rightharpoonup> upload) \<Rightarrow> string set" where
  "written e now fparts =
     {disk_location e (stored_as (now sl) file) |sl file. fparts sl = Some file}"

text \<open>The path field of a slot, and the bucket that the handler writes for it.\<close>

definition slot_path :: "slot \<Rightarrow> profile \<Rightarrow> string option" where
  "slot_path sl prof =
     (case sl of
        ProfilePic \<Rightarrow> profilePic prof
      | ProfilePic2 \<Rightarrow> profilePic2 prof
      | ResumePdf \<Rightarrow> pdf prof
      | Video \<Rightarrow> video prof)"

definition slot_bucket :: "slot \<Rightarrow> string" where
  "slot_bucket sl =
     (case sl of
        ProfilePic \<Rightarrow> ''uploads/images''
      | ProfilePic2 \<Rightarrow> ''uploads/images''
      | ResumePdf \<Rightarrow> ''uploads/pdfs''
      | Video \<Rightarrow> ''uploads/videos'')"

text \<open>One segment of \<open>normalizeString\<close>, on the result so far.\<close>

definition step :: "bool \<Rightarrow> string list \<Rightarrow> string \<Rightarrow> string list" where
  "step allowAboveRoot res seg =
     (if seg = [] \<or> seg = ''.'' then res
      else if seg = ''..'' then
        (case res of
           [] \<Rightarrow> if allowAboveRoot then [''..''] else []
         | t # res' \<Rightarrow>
             if t \<noteq> ''..'' then res' else if allowAboveRoot then ''..'' # res else res)
      else seg # res)"

text \<open>
  The service runs from the directory two levels above the routes file, where the
  \<open>uploads\<close> folders are created.
\<close>

definition cwd_is_root :: "env \<Rightarrow> bool" where
  "cwd_is_root e \<longleftrightarrow>
     dirname e \<noteq> [] \<and> hd (dirname e) = CHR ''/'' \<and> cwd e \<noteq> [] \<and> hd (cwd e) = CHR ''/''
     \<and> normalizeString False [] (split_slash (dirname e) @ [''..'', ''..''])
         = normalizeString False [] (split_slash (cwd e))"

text \<open>A guarded \<open>deleteOldFile\<close> call that raises: the former path resolves to a directory.\<close>

definition blocked :: "env \<Rightarrow> string option \<Rightarrow> string option \<Rightarrow> state \<Rightarrow> bool" where
  "blocked e newFile old s =
     (case old of
        None \<Rightarrow> False
      | Some p \<Rightarrow> truthy newFile \<and> p \<noteq> [] \<and> without_trailing (fullPath e p) \<in> dirs s)"

text \<open>A path at which a file can be written.\<close>

definition can_write :: "state \<Rightarrow> string \<Rightarrow> bool" where
  "can_write s p \<longleftrightarrow> parent_dir p \<in> dirs s \<and> without_trailing p \<notin> dirs s"

text \<open>Every file part of the form can be written where the disk storage puts it.\<close>

definition storable :: "env \<Rightarrow> (slot \<Rightarrow> nat) \<Rightarrow> (slot \<rightharpoonup> upload) \<Rightarrow> state \<Rightarrow> bool" where
  "storable e now fparts s \<longleftrightarrow>
     (\<forall>sl \<in> set all_slots.
        case fparts sl of
          None \<Rightarrow> True
        | Some file \<Rightarrow> can_write s (disk_location e (stored_as (now sl) file)))"

text \<open>No path that the update is about to reclaim resolves to a directory.\<close>

definition reclaim_safe :: "env \<Rightarrow> (slot \<rightharpoonup> upload) \<Rightarrow> profile \<Rightarrow> state \<Rightarrow> bool" where
  "reclaim_safe e fparts prof s \<longleftrightarrow>
     (\<forall>sl \<in> set all_slots.
        case fparts sl of
          None \<Rightarrow> True
        | Some file \<Rightarrow>
            (case slot_path sl prof of
               None \<Rightarrow> True
             | Some p \<Rightarrow> p = [] \<or> without_trailing (fullPath e p) \<notin> dirs s))"

text \<open>The number that a string of decimal digits denotes.\<close>

definition digit_value :: "char \<Rightarrow> nat" where
  "digit_value c = of_char c - 48"

definition decimal_value :: "string \<Rightarrow> nat" where
  "decimal_value ds = foldl (\<lambda>a c. 10 * a + digit_value c) 0 ds"

section \<open>Properties\<close>

subsection \<open>Path normalisation\<close>

text \<open>\<open>normalizeString\<close> folds \<open>step\<close> over the segments.\<close>

lemma normalizeString_foldl:
  "normalizeString al res segs = rev (foldl (step al) res segs)"
  by (induction segs arbitrary: res) (auto simp add: step_def split: list.splits)

text \<open>Splitting at slashes and joining with slashes.\<close>

lemma split_slash_nonempty: "split_slash s \<noteq> []"
  by (induction s) (auto split: list.splits)

lemma split_slash_append:
  "split_slash (a @ CHR ''/'' # b) = split_slash a @ split_slash b"
proof (induction a)
  case Nil
  show ?case by simp
next
  case (Cons c a)
  obtain seg segs where "split_slash a = seg # segs"
    using split_slash_nonempty [of a] by (cases "split_slash a") auto
  with Cons show ?case by simp
qed

lemma split_slash_no_slash: "seg \<in> set (split_slash s) \<Longrightarrow> CHR ''/'' \<notin> set seg"
  by (induction s arbitrary: seg) (auto split: if_splits list.splits)

lemma split_slash_plain: "CHR ''/'' \<notin> set seg \<Longrightarrow> split_slash seg = [seg]"
  by (induction seg) auto

lemma split_join:
  "segs \<noteq> [] \<Longrightarrow> \<forall>seg \<in> set segs. CHR ''/'' \<notin> set seg \<Longrightarrow> split_slash (join_slash segs) = segs"
proof (induction segs rule: join_slash.induct)
  case 1
  then show ?case by simp
next
  case (2 seg)
  then show ?case by (simp add: split_slash_plain)
next
  case (3 seg v va)
  then show ?case by (simp add: split_slash_append split_slash_plain)
qed

lemma join_slash_empty:
  "\<forall>seg \<in> set segs. seg \<noteq> [] \<Longrightarrow> join_slash segs = [] \<longleftrightarrow> segs = []"
  by (induction segs rule: join_slash.induct) auto

lemma join_slash_nonempty: "segs \<noteq> [] \<Longrightarrow> last segs \<noteq> [] \<Longrightarrow> join_slash segs \<noteq> []"
  by (induction segs rule: join_slash.induct) auto

lemma last_join_slash:
  "segs \<noteq> [] \<Longrightarrow> last segs \<noteq> [] \<Longrightarrow> last (join_slash segs) = last (last segs)"
  by (induction segs rule: join_slash.induct) (auto simp add: join_slash_nonempty)

text \<open>What a step can do to the result so far.\<close>

lemma step_cases:
  "step al res seg = res \<or> step al res seg = tl res \<or> step al res seg = seg # res"
proof (cases "seg = [] \<or> seg = ''.''")
  case True
  then show ?thesis by (simp add: step_def)
next
  case False
  show ?thesis
  proof (cases "seg = ''..''")
    case True
    then show ?thesis by (cases res) (simp_all add: step_def)
  next
    case False
    with \<open>\<not> (seg = [] \<or> seg = ''.'')\<close> show ?thesis by (simp add: step_def)
  qed
qed

lemma step_subset: "set (step al res seg) \<subseteq> insert seg (set res)"
proof -
  have "set (tl res) \<subseteq> set res" by (cases res) auto
  with step_cases [of al res seg] show ?thesis by auto
qed

lemma foldl_step_subset: "set (foldl (step al) res segs) \<subseteq> set res \<union> set segs"
proof (induction segs arbitrary: res)
  case Nil
  show ?case by simp
next
  case (Cons seg segs)
  from Cons [of "step al res seg"] step_subset [of al res seg] show ?case by auto
qed

lemma step_proper:
  assumes "\<forall>t \<in> set res. t \<noteq> [] \<and> t \<noteq> ''.''"
  shows "\<forall>t \<in> set (step al res seg). t \<noteq> [] \<and> t \<noteq> ''.''"
proof (cases "seg = [] \<or> seg = ''.''")
  case True
  with assms show ?thesis by (simp add: step_def)
next
  case False
  have "set (tl res) \<subseteq> set res" by (cases res) auto
  with step_cases [of al res seg] assms False show ?thesis by auto
qed

lemma foldl_step_proper:
  "\<forall>t \<in> set res. t \<noteq> [] \<and> t \<noteq> ''.''
   \<Longrightarrow> \<forall>t \<in> set (foldl (step al) res segs). t \<noteq> [] \<and> t \<noteq> ''.''"
proof (induction segs arbitrary: res)
  case Nil
  then show ?case by simp
next
  case (Cons seg segs)
  from Cons.IH [OF step_proper [OF Cons.prems]] show ?case by simp
qed

text \<open>
  Normalising a relative path first and appending the result to an absolute path gives
  the same segments as appending the relative path as it is.
\<close>

lemma step_after_relative:
  assumes "\<forall>t \<in> set acc. t \<noteq> [] \<and> t \<noteq> ''.''"
  shows "foldl (step False) st (rev (step True acc seg))
           = step False (foldl (step False) st (rev acc)) seg"
proof (cases "seg = ''..''")
  case False
  then show ?thesis by (simp add: step_def)
next
  case True
  show ?thesis
  proof (cases acc)
    case Nil
    with True show ?thesis by (simp add: step_def)
  next
    case (Cons t acc')
    show ?thesis
    proof (cases "t = ''..''")
      case True
      with \<open>seg = ''..''\<close> Cons show ?thesis by (simp add: step_def)
    next
      case False
      from assms Cons have "t \<noteq> []" "t \<noteq> ''.''" by simp_all
      with False have "step False res t = t # res" for res
        by (simp add: step_def)
      with False \<open>seg = ''..''\<close> Cons show ?thesis by (simp add: step_def)
    qed
  qed
qed

lemma relative_then_absolute:
  assumes "\<forall>t \<in> set acc. t \<noteq> [] \<and> t \<noteq> ''.''"
  shows "foldl (step False) st (rev (foldl (step True) acc segs))
           = foldl (step False) st (rev acc @ segs)"
  using assms
proof (induction segs arbitrary: acc)
  case Nil
  show ?case by simp
next
  case (Cons seg segs)
  from Cons.IH [OF step_proper [OF Cons.prems]] step_after_relative [OF Cons.prems]
  show ?case by simp
qed

lemma normalize_absolute:
  assumes "p \<noteq> []" and "hd p = CHR ''/''"
  shows "normalize p =
           (if foldl (step False) [] (split_slash p) = [] then ''/''
            else ''/'' @ join_slash (rev (foldl (step False) [] (split_slash p)))
                 @ (if last p = CHR ''/'' then ''/'' else []))"
proof -
  have "\<forall>t \<in> set (foldl (step False) [] (split_slash p)). t \<noteq> [] \<and> t \<noteq> ''.''"
    by (rule foldl_step_proper) simp
  then have "join_slash (rev (foldl (step False) [] (split_slash p))) = []
               \<longleftrightarrow> foldl (step False) [] (split_slash p) = []"
    by (simp add: join_slash_empty)
  with assms show ?thesis
    by (simp add: normalize_def normalizeString_foldl Let_def)
qed

lemma step_skip_empty [simp]: "step al res [] = res"
  by (simp add: step_def)

lemma step_skip_dot [simp]: "step al res ''.'' = res"
  by (simp add: step_def)

text \<open>
  The path that the handler stores for bucket \<open>B\<close> and name \<open>fn\<close>, resolved the
  way \<open>deleteOldFile\<close> resolves it, is the location where the disk storage writes a
  file of that bucket and name.
\<close>

lemma stored_path_resolves:
  assumes "cwd_is_root e" and "B \<noteq> []" and "hd B \<noteq> CHR ''/''" and "fn \<noteq> []"
  shows "fullPath e (''/'' @ B @ ''/'' @ fn) = path_join [cwd e, path_join [B, fn]]"
proof -
  let ?segs = "split_slash B @ split_slash fn"
  let ?L = "rev (foldl (step True) [] ?segs)"
  let ?tr = "last fn = CHR ''/''"
  from assms(1) have D: "dirname e \<noteq> []" "hd (dirname e) = CHR ''/''"
    and C: "cwd e \<noteq> []" "hd (cwd e) = CHR ''/''"
    and root: "foldl (step False) [] (split_slash (dirname e) @ [''..'', ''..''])
                 = foldl (step False) [] (split_slash (cwd e))"
    by (simp_all add: cwd_is_root_def normalizeString_foldl)
  define inner where "inner = path_join [B, fn]"
  have L_proper: "\<forall>t \<in> set ?L. t \<noteq> [] \<and> t \<noteq> ''.''"
    using foldl_step_proper [of "[]" True ?segs] by simp
  have L_plain: "\<forall>t \<in> set ?L. CHR ''/'' \<notin> set t"
  proof
    fix t assume "t \<in> set ?L"
    with foldl_step_subset [of True "[]" ?segs]
    have "t \<in> set (split_slash B) \<or> t \<in> set (split_slash fn)" by auto
    then show "CHR ''/'' \<notin> set t" by (auto dest: split_slash_no_slash)
  qed
  have empty: "join_slash ?L = [] \<longleftrightarrow> ?L = []"
    using L_proper by (intro join_slash_empty) simp
  have inner_eq: "inner = (if ?L = [] then (if ?tr then ''./'' else ''.'')
                           else join_slash ?L @ (if ?tr then ''/'' else []))"
    using assms(2-4) empty
    by (simp add: inner_def path_join_def normalize_def Let_def normalizeString_foldl
        split_slash_append)
  have inner_ne: "inner \<noteq> []"
    using empty by (simp add: inner_eq)
  have inner_last: "last inner = CHR ''/'' \<longleftrightarrow> ?tr"
  proof (cases "?L = []")
    case True
    then show ?thesis by (simp add: inner_eq)
  next
    case False
    with L_proper have "last ?L \<noteq> []" by (metis last_in_set)
    with False have "last (join_slash ?L) = last (last ?L)" "join_slash ?L \<noteq> []"
      by (simp_all add: last_join_slash join_slash_nonempty)
    moreover have "CHR ''/'' \<notin> set (last ?L)"
      using False L_plain by (metis last_in_set)
    ultimately have "last (join_slash ?L) \<noteq> CHR ''/''"
      using \<open>last ?L \<noteq> []\<close> by (metis last_in_set)
    with False \<open>join_slash ?L \<noteq> []\<close> show ?thesis by (simp add: inner_eq)
  qed
  have absorb: "foldl (step False) S (split_slash inner) = foldl (step False) S ?segs" for S
  proof -
    have "foldl (step False) S (split_slash inner) = foldl (step False) S ?L"
    proof (cases "?L = []")
      case True
      then show ?thesis by (simp add: inner_eq)
    next
      case False
      with L_plain have "split_slash (join_slash ?L) = ?L"
        by (intro split_join) simp_all
      moreover have "split_slash (join_slash ?L @ ''/'') = split_slash (join_slash ?L) @ [[]]"
        using split_slash_append [of "join_slash ?L" "[]"] by simp
      ultimately show ?thesis using False by (simp add: inner_eq)
    qed
    also have "\<dots> = foldl (step False) S ?segs"
      using relative_then_absolute [of "[]" S ?segs] by simp
    finally show ?thesis .
  qed
  let ?stack = "foldl (step False) (foldl (step False) [] (split_slash (cwd e))) ?segs"
  have rhs: "path_join [cwd e, inner] =
               (if ?stack = [] then ''/''
                else ''/'' @ join_slash (rev ?stack) @ (if ?tr then ''/'' else []))"
  proof -
    have "path_join [cwd e, inner] = normalize (cwd e @ CHR ''/'' # inner)"
      using C inner_ne by (simp add: path_join_def)
    also have "\<dots> = (if ?stack = [] then ''/''
                else ''/'' @ join_slash (rev ?stack) @ (if ?tr then ''/'' else []))"
      using C inner_ne inner_last
      by (subst normalize_absolute) (simp_all add: split_slash_append absorb)
    finally show ?thesis .
  qed
  have lhs: "fullPath e (''/'' @ B @ ''/'' @ fn) =
               (if ?stack = [] then ''/''
                else ''/'' @ join_slash (rev ?stack) @ (if ?tr then ''/'' else []))"
  proof -
    let ?p = "dirname e @ CHR ''/'' # (''../../'' @ CHR ''/'' # (CHR ''/'' # B @ CHR ''/'' # fn))"
    have full: "fullPath e (''/'' @ B @ ''/'' @ fn) = normalize ?p"
      using D by (simp add: fullPath_def path_join_def)
    have segs: "split_slash ?p
        = (split_slash (dirname e) @ [''..'', ''..'']) @ [[], []] @ ?segs"
      using split_slash_append [of "dirname e" "''../../'' @ CHR ''/'' # (CHR ''/'' # B @ CHR ''/'' # fn)"]
        split_slash_append [of "''../../''" "CHR ''/'' # B @ CHR ''/'' # fn"]
        split_slash_append [of "[]" "B @ CHR ''/'' # fn"]
        split_slash_append [of B fn]
      by simp
    have up: "step False (step False (foldl (step False) [] (split_slash (dirname e))) ''..'') ''..''
                = foldl (step False) [] (split_slash (cwd e))"
      using root by simp
    have stack: "foldl (step False) [] (split_slash ?p) = ?stack"
      unfolding segs by (simp add: up)
    have shape: "?p \<noteq> []" "hd ?p = CHR ''/''" "last ?p = last fn"
      using D assms(4) by simp_all
    show ?thesis
      unfolding full by (simp only: normalize_absolute [OF shape(1,2)] stack shape(3))
  qed
  show ?thesis unfolding lhs using rhs by (simp add: inner_def)
qed

subsection \<open>File classifier\<close>

text \<open>\<open>startsWith\<close> is being a prefix.\<close>

lemma startsWith_append: "startsWith (p @ rest) p"
  by (simp add: startsWith_def)

lemma startsWith_iff: "startsWith s p \<longleftrightarrow> (\<exists>rest. s = p @ rest)"
proof
  assume "startsWith s p"
  then have "s = p @ drop (length p) s"
    by (metis append_take_drop_id startsWith_def)
  then show "\<exists>rest. s = p @ rest" ..
next
  assume "\<exists>rest. s = p @ rest"
  then show "startsWith s p" by (auto simp add: startsWith_append)
qed

text \<open>The whitespace replacement, run by run.\<close>

lemma underscore_no_space: "\<not> is_space (CHR ''_'')"
  by (simp add: is_space_def)

lemma replace_ws_no_space: "c \<in> set (replace_ws s) \<Longrightarrow> \<not> is_space c"
  by (induction s rule: replace_ws.induct) (auto simp add: underscore_no_space split: if_splits)

lemma replace_ws_id: "\<forall>c \<in> set s. \<not> is_space c \<Longrightarrow> replace_ws s = s"
  by (induction s) auto

lemma replace_ws_run:
  assumes "ws \<noteq> []" and "\<forall>c \<in> set ws. is_space c" and "post = [] \<or> \<not> is_space (hd post)"
  shows "replace_ws (ws @ post) = CHR ''_'' # replace_ws post"
proof -
  from assms(1) obtain w ws' where ws: "ws = w # ws'" by (cases ws) auto
  have "dropWhile is_space (ws' @ post) = post"
  proof (cases post)
    case Nil
    with assms(2) ws show ?thesis by simp
  next
    case (Cons x xs)
    with assms(3) have "\<not> is_space x" by simp
    with assms(2) ws Cons show ?thesis
      by (simp add: dropWhile_append2)
  qed
  with assms(2) ws show ?thesis by simp
qed

lemma replace_ws_split:
  assumes "ws \<noteq> []" and "\<forall>c \<in> set ws. is_space c"
      and "post = [] \<or> \<not> is_space (hd post)"
      and "pre = [] \<or> \<not> is_space (last pre)"
  shows "replace_ws (pre @ ws @ post) = replace_ws pre @ CHR ''_'' # replace_ws post"
  using assms(4)
proof (induction pre rule: replace_ws.induct)
  case 1
  show ?case using replace_ws_run [OF assms(1-3)] by simp
next
  case (2 c cs)
  show ?case
  proof (cases "is_space c")
    case False
    have "cs = [] \<or> \<not> is_space (last cs)"
      using "2.prems" by (cases cs) auto
    with False "2.IH"(2) show ?thesis by simp
  next
    case True
    with "2.prems" have ne: "cs \<noteq> []" by auto
    with "2.prems" have l: "\<not> is_space (last cs)" by simp
    then have ex: "\<exists>x \<in> set cs. \<not> is_space x"
      using ne last_in_set by blast
    then obtain x where "x \<in> set cs" and "\<not> is_space x" by blast
    then have dw: "dropWhile is_space (cs @ ws @ post) = dropWhile is_space cs @ ws @ post"
      by (rule dropWhile_append1)
    from ex have dne: "dropWhile is_space cs \<noteq> []"
      by (simp add: dropWhile_eq_Nil_conv)
    have "last (dropWhile is_space cs) = last cs"
      using dne by (metis last_appendR takeWhile_dropWhile_id)
    with l dne have "dropWhile is_space cs = [] \<or> \<not> is_space (last (dropWhile is_space cs))"
      by simp
    from "2.IH"(1) [OF True this] True dw show ?thesis by simp
  qed
qed

lemma storage_filename_nonempty: "storage_filename now file \<noteq> []"
  by (simp add: storage_filename_def)

text \<open>A clock reading is rendered with decimal digits only.\<close>

lemma show_nat_digits: "set (show_nat n) \<subseteq> set ''0123456789''"
proof (induction n rule: show_nat.induct)
  case (1 n)
  have digit: "''0123456789'' ! k \<in> set ''0123456789''" if "k < 10" for k
    using that by (intro nth_mem) simp
  show ?case
  proof (cases "n < 10")
    case True
    then show ?thesis
      using digit [of n] by (subst show_nat.simps) simp
  next
    case False
    have "n mod 10 < 10" by simp
    with False "1.IH" digit [of "n mod 10"] show ?thesis
      by (subst show_nat.simps) simp
  qed
qed

text \<open>
  When the media type of an upload is classified into the bucket that the handler
  writes for its slot, the path that the handler stores resolves to the location where
  the file was written.
\<close>

lemma matching_type_path_locates_file:
  assumes "cwd_is_root e" and "storage_destination file = slot_bucket sl"
  shows "fullPath e (''/'' @ slot_bucket sl @ ''/'' @ storage_filename now file)
           = disk_location e (stored_as now file)"
proof -
  have "slot_bucket sl \<noteq> []" "hd (slot_bucket sl) \<noteq> CHR ''/''"
    by (cases sl; simp add: slot_bucket_def)+
  from stored_path_resolves [OF assms(1) this storage_filename_nonempty [of now "file"]] assms(2)
  show ?thesis by (simp add: disk_location_def stored_as_def)
qed

lemma app_env_root: "cwd_is_root app_env"
  by (simp add: cwd_is_root_def app_env_def)

text \<open>
  The clock reading in decimal: \<open>show_nat\<close> yields at least one digit, digits only, no
  leading zero, and the digits denote the number. No other string does.
\<close>

lemma show_nat_nonempty: "show_nat n \<noteq> []"
  by (subst show_nat.simps) simp

lemma digit_codes: "map of_char ''0123456789'' = map (\<lambda>i. 48 + i) [0..<10 :: nat]"
  by (simp add: upt_rec)

lemma digit_value_nth:
  assumes "k < 10"
  shows "digit_value (''0123456789'' ! k) = k"
proof -
  have "of_char (''0123456789'' ! k) = map of_char ''0123456789'' ! k"
    using assms by (subst nth_map) simp_all
  also have "\<dots> = 48 + k"
    unfolding digit_codes using assms by (simp del: upt_Suc)
  finally show ?thesis
    by (simp add: digit_value_def)
qed

lemma digit_nonzero: "0 < k \<Longrightarrow> k < 10 \<Longrightarrow> ''0123456789'' ! k \<noteq> CHR ''0''"
  using digit_value_nth [of k] by (auto simp add: digit_value_def)

lemma decimal_value_snoc:
  "decimal_value (ds @ [c]) = 10 * decimal_value ds + digit_value c"
  by (simp add: decimal_value_def)

lemma decimal_value_show_nat: "decimal_value (show_nat n) = n"
proof (induction n rule: show_nat.induct)
  case (1 n)
  show ?case
  proof (cases "n < 10")
    case True
    then show ?thesis
      by (subst show_nat.simps) (simp add: decimal_value_def digit_value_nth)
  next
    case False
    have "decimal_value (show_nat n)
            = 10 * decimal_value (show_nat (n div 10)) + digit_value (''0123456789'' ! (n mod 10))"
      using False by (subst show_nat.simps) (simp add: decimal_value_snoc)
    also have "\<dots> = 10 * (n div 10) + n mod 10"
      using False "1.IH" by (simp add: digit_value_nth)
    finally show ?thesis by simp
  qed
qed

lemma show_nat_no_leading_zero: "n \<noteq> 0 \<Longrightarrow> hd (show_nat n) \<noteq> CHR ''0''"
proof (induction n rule: show_nat.induct)
  case (1 n)
  show ?case
  proof (cases "n < 10")
    case True
    with "1.prems" have "''0123456789'' ! n \<noteq> CHR ''0''"
      by (intro digit_nonzero) simp_all
    with True show ?thesis
      by (subst show_nat.simps) simp
  next
    case False
    then have "n div 10 \<noteq> 0" by simp
    with False "1.IH" have "hd (show_nat (n div 10)) \<noteq> CHR ''0''" by simp
    then show ?thesis
      using False show_nat_nonempty [of "n div 10"]
      by (subst show_nat.simps) simp
  qed
qed

text \<open>The definitions that evaluate a route on concrete data.\<close>

lemmas eval_defs =
  update_profile_def upload_fields_def update_profile_handler_def delete_old_files_def
  updated_profile_def new_profile_def stored_as_def storage_destination_def
  storage_filename_def startsWith_def show_nat.simps is_space_def path_join_def
  normalize_def all_slots_def disk_location_def app_env_def uploaded_filename_def
  reclaim_def new_or_old_def update_user_def deleteOldFile_def truthy_def js_or_def
  existsSync_def unlinkSync_def write_file_def parent_dir_def without_trailing_def
  fullPath_def Let_def
  s0_def u1_profile_def u1_user_def text_fields_def

text \<open>
  The folders that the module creates when it is loaded: \<open>uploads/images\<close>,
  \<open>uploads/pdfs\<close> and \<open>uploads/videos\<close>, and not \<open>uploads/others\<close>. The
  directories of the example state are the ones of a project that holds the routes
  file, after the module has been loaded.
\<close>

lemma ensure_folders_app:
  "dirs (ensure_folders app_env
           \<lparr>fs = {}, dirs = {''/app'', ''/app/routes'', ''/app/routes/admin''},
            profiles = Map.empty, users = Map.empty, educations = [], experiences = []\<rparr>)
     = dirs s0
   \<and> ''/app/uploads/images'' \<in> dirs s0 \<and> ''/app/uploads/pdfs'' \<in> dirs s0
   \<and> ''/app/uploads/videos'' \<in> dirs s0 \<and> ''/app/uploads/others'' \<notin> dirs s0"
  by (auto simp add: ensure_folders_def mkdirSync_recursive_def dir_chain_def existsSync_def
        without_trailing_def path_join_def normalize_def app_env_def s0_def)

text \<open>
  C6. The bucket depends on the declared media type alone: \<open>uploads/images\<close> for a
  type that starts with \<open>image/\<close>, \<open>uploads/pdfs\<close> for exactly
  \<open>application/pdf\<close>, \<open>uploads/videos\<close> for a type that starts with
  \<open>video/\<close>, \<open>uploads/others\<close> for the rest. The generated name is the clock
  reading in decimal, a hyphen, and the original name in which whitespace runs are
  replaced. The clock reading is rendered as the one string of decimal digits without
  leading zero that denotes it. The replacement leaves no whitespace, changes nothing in
  a name without whitespace, and turns a maximal run into one underscore.
\<close>

theorem C6_bucket_and_generated_name:
  "(mimetype file = mimetype file' \<longrightarrow> storage_destination file = storage_destination file')
   \<and> (\<forall>rest. mimetype file = ''image/'' @ rest \<longrightarrow> storage_destination file = ''uploads/images'')
   \<and> (mimetype file = ''application/pdf'' \<longrightarrow> storage_destination file = ''uploads/pdfs'')
   \<and> (\<forall>rest. mimetype file = ''video/'' @ rest \<longrightarrow> storage_destination file = ''uploads/videos'')
   \<and> ((\<nexists>rest. mimetype file = ''image/'' @ rest) \<and> mimetype file \<noteq> ''application/pdf''
        \<and> (\<nexists>rest. mimetype file = ''video/'' @ rest)
       \<longrightarrow> storage_destination file = ''uploads/others'')
   \<and> (\<exists>stamp safeName. storage_filename now file = stamp @ ''-'' @ safeName
         \<and> stamp \<noteq> [] \<and> (\<forall>c \<in> set stamp. c \<in> set ''0123456789'')
         \<and> (now \<noteq> 0 \<longrightarrow> hd stamp \<noteq> CHR ''0'')
         \<and> decimal_value stamp = now
         \<and> (\<forall>c \<in> set safeName. \<not> is_space c)
         \<and> ((\<forall>c \<in> set (originalname file). \<not> is_space c) \<longrightarrow> safeName = originalname file)
         \<and> (\<forall>pre ws post.
               originalname file = pre @ ws @ post
               \<and> ws \<noteq> [] \<and> (\<forall>c \<in> set ws. is_space c)
               \<and> (pre = [] \<or> \<not> is_space (last pre)) \<and> (post = [] \<or> \<not> is_space (hd post))
             \<longrightarrow> safeName = replace_ws pre @ ''_'' @ replace_ws post))"
proof (intro conjI allI impI)
  assume "mimetype file = mimetype file'"
  then show "storage_destination file = storage_destination file'"
    by (simp add: storage_destination_def)
next
  fix rest assume "mimetype file = ''image/'' @ rest"
  then show "storage_destination file = ''uploads/images''"
    by (simp add: storage_destination_def startsWith_def)
next
  assume "mimetype file = ''application/pdf''"
  then show "storage_destination file = ''uploads/pdfs''"
    by (simp add: storage_destination_def startsWith_def)
next
  fix rest assume "mimetype file = ''video/'' @ rest"
  then show "storage_destination file = ''uploads/videos''"
    by (simp add: storage_destination_def startsWith_def)
next
  assume "(\<nexists>rest. mimetype file = ''image/'' @ rest) \<and> mimetype file \<noteq> ''application/pdf''
        \<and> (\<nexists>rest. mimetype file = ''video/'' @ rest)"
  then have "\<not> startsWith (mimetype file) ''image/''" "mimetype file \<noteq> ''application/pdf''"
    "\<not> startsWith (mimetype file) ''video/''"
    by (simp_all only: startsWith_iff not_False_eq_True)
  then show "storage_destination file = ''uploads/others''"
    by (simp add: storage_destination_def Let_def)
next
  let ?stamp = "show_nat now" and ?safe = "replace_ws (originalname file)"
  have name: "storage_filename now file = ?stamp @ ''-'' @ ?safe"
    by (simp add: storage_filename_def)
  have digits: "\<forall>c \<in> set ?stamp. c \<in> set ''0123456789''"
    using show_nat_digits [of now] by blast
  have lead: "now \<noteq> 0 \<longrightarrow> hd ?stamp \<noteq> CHR ''0''"
    by (simp add: show_nat_no_leading_zero)
  have nospace: "\<forall>c \<in> set ?safe. \<not> is_space c"
    using replace_ws_no_space by blast
  have same: "(\<forall>c \<in> set (originalname file). \<not> is_space c) \<longrightarrow> ?safe = originalname file"
    using replace_ws_id by blast
  have run: "\<forall>pre ws post.
               originalname file = pre @ ws @ post
               \<and> ws \<noteq> [] \<and> (\<forall>c \<in> set ws. is_space c)
               \<and> (pre = [] \<or> \<not> is_space (last pre)) \<and> (post = [] \<or> \<not> is_space (hd post))
             \<longrightarrow> ?safe = replace_ws pre @ ''_'' @ replace_ws post"
  proof (intro allI impI)
    fix pre ws post
    assume "originalname file = pre @ ws @ post
               \<and> ws \<noteq> [] \<and> (\<forall>c \<in> set ws. is_space c)
               \<and> (pre = [] \<or> \<not> is_space (last pre)) \<and> (post = [] \<or> \<not> is_space (hd post))"
    then show "?safe = replace_ws pre @ ''_'' @ replace_ws post"
      using replace_ws_split [of ws post pre] by simp
  qed
  from name show_nat_nonempty [of now] digits lead decimal_value_show_nat [of now] nospace same run
  show "\<exists>stamp safeName. storage_filename now file = stamp @ ''-'' @ safeName
         \<and> stamp \<noteq> [] \<and> (\<forall>c \<in> set stamp. c \<in> set ''0123456789'')
         \<and> (now \<noteq> 0 \<longrightarrow> hd stamp \<noteq> CHR ''0'')
         \<and> decimal_value stamp = now
         \<and> (\<forall>c \<in> set safeName. \<not> is_space c)
         \<and> ((\<forall>c \<in> set (originalname file). \<not> is_space c) \<longrightarrow> safeName = originalname file)
         \<and> (\<forall>pre ws post.
               originalname file = pre @ ws @ post
               \<and> ws \<noteq> [] \<and> (\<forall>c \<in> set ws. is_space c)
               \<and> (pre = [] \<or> \<not> is_space (last pre)) \<and> (post = [] \<or> \<not> is_space (hd post))
             \<longrightarrow> safeName = replace_ws pre @ ''_'' @ replace_ws post)"
    by blast
qed

theorem C6_witness:
  "storage_destination image_file = ''uploads/images''
   \<and> storage_destination pdf_file = ''uploads/pdfs''
   \<and> storage_destination video_file = ''uploads/videos''
   \<and> storage_destination text_file = ''uploads/others''
   \<and> (\<exists>stamp safeName. storage_filename 1700000000123 video_file = stamp @ ''-'' @ safeName
         \<and> stamp \<noteq> [] \<and> hd stamp \<noteq> CHR ''0'' \<and> decimal_value stamp = 1700000000123
         \<and> safeName = ''my_first_clip.mp4'')
   \<and> storage_filename 1700000000123 video_file = ''1700000000123-my_first_clip.mp4''
   \<and> decimal_value ''1700000000123'' = 1700000000123
   \<and> storage_filename 0 image_file = ''0-me.png''"
proof -
  have "mimetype image_file = ''image/'' @ ''png''" by (simp add: image_file_def)
  with C6_bucket_and_generated_name [of image_file image_file 0]
  have a: "storage_destination image_file = ''uploads/images''" by blast
  have "mimetype pdf_file = ''application/pdf''" by (simp add: pdf_file_def)
  with C6_bucket_and_generated_name [of pdf_file pdf_file 0]
  have b: "storage_destination pdf_file = ''uploads/pdfs''" by blast
  have "mimetype video_file = ''video/'' @ ''mp4''" by (simp add: video_file_def)
  with C6_bucket_and_generated_name [of video_file video_file 0]
  have c: "storage_destination video_file = ''uploads/videos''" by blast
  have "(\<nexists>rest. mimetype text_file = ''image/'' @ rest) \<and> mimetype text_file \<noteq> ''application/pdf''
        \<and> (\<nexists>rest. mimetype text_file = ''video/'' @ rest)"
    by (simp add: text_file_def)
  with C6_bucket_and_generated_name [of text_file text_file 0]
  have d: "storage_destination text_file = ''uploads/others''" by blast
  have split: "originalname video_file = ''my'' @ ''  '' @ ''first clip.mp4''
         \<and> ''  '' \<noteq> [] \<and> (\<forall>c \<in> set ''  ''. is_space c)
         \<and> (''my'' = [] \<or> \<not> is_space (last ''my''))
         \<and> (''first clip.mp4'' = [] \<or> \<not> is_space (hd ''first clip.mp4''))"
    by (simp add: video_file_def is_space_def)
  have pieces: "replace_ws ''my'' @ ''_'' @ replace_ws ''first clip.mp4'' = ''my_first_clip.mp4''"
    by (simp add: is_space_def)
  have clock: "(1700000000123 :: nat) \<noteq> 0" by simp
  from C6_bucket_and_generated_name [of video_file video_file 1700000000123]
  obtain stamp safeName where
      n: "storage_filename 1700000000123 video_file = stamp @ ''-'' @ safeName"
        "stamp \<noteq> []" "1700000000123 \<noteq> (0 :: nat) \<longrightarrow> hd stamp \<noteq> CHR ''0''"
        "decimal_value stamp = 1700000000123"
    and r: "\<forall>pre ws post.
               originalname video_file = pre @ ws @ post
               \<and> ws \<noteq> [] \<and> (\<forall>c \<in> set ws. is_space c)
               \<and> (pre = [] \<or> \<not> is_space (last pre)) \<and> (post = [] \<or> \<not> is_space (hd post))
             \<longrightarrow> safeName = replace_ws pre @ ''_'' @ replace_ws post"
    by blast
  from r split have "safeName = replace_ws ''my'' @ ''_'' @ replace_ws ''first clip.mp4''"
    by blast
  with pieces have "safeName = ''my_first_clip.mp4''" by simp
  with n clock have e: "\<exists>stamp safeName.
         storage_filename 1700000000123 video_file = stamp @ ''-'' @ safeName
         \<and> stamp \<noteq> [] \<and> hd stamp \<noteq> CHR ''0'' \<and> decimal_value stamp = 1700000000123
         \<and> safeName = ''my_first_clip.mp4''"
    by blast
  have f: "storage_filename 1700000000123 video_file = ''1700000000123-my_first_clip.mp4''"
    by (simp add: storage_filename_def video_file_def show_nat.simps is_space_def)
  have g: "decimal_value ''1700000000123'' = 1700000000123"
    by (simp add: decimal_value_def digit_value_def)
  have h: "storage_filename 0 image_file = ''0-me.png''"
    by (simp add: storage_filename_def image_file_def show_nat.simps is_space_def)
  from a b c d e f g h show ?thesis by simp
qed

subsection \<open>Stale-file reclaimer\<close>

text \<open>\<open>deleteOldFile\<close> in closed form, and the four guarded calls of the handler.\<close>

lemma deleteOldFile_closed:
  "deleteOldFile e filePath s =
     (case filePath of
        None \<Rightarrow> Inr s
      | Some p \<Rightarrow>
          if p = [] then Inr s
          else if without_trailing (fullPath e p) \<in> dirs s then Inl EISDIR
          else if fullPath e p \<in> fs s then Inr (s\<lparr>fs := fs s - {fullPath e p}\<rparr>)
          else Inr s)"
  by (cases filePath)
     (simp_all add: deleteOldFile_def truthy_def existsSync_def unlinkSync_def)

lemma deleteOldFile_falsy: "\<not> truthy filePath \<Longrightarrow> deleteOldFile e filePath s = Inr s"
  by (simp add: deleteOldFile_def)

lemma reclaim_closed:
  "reclaim e newFile old s =
     (if blocked e newFile old s then Inl EISDIR
      else Inr (s\<lparr>fs := fs s - reclaimed e newFile old\<rparr>))"
  by (cases old) (simp_all add: reclaim_def reclaimed_def blocked_def deleteOldFile_closed truthy_def)

lemma blocked_fs [simp]: "blocked e newFile old (s\<lparr>fs := files\<rparr>) = blocked e newFile old s"
  by (simp add: blocked_def split: option.splits)

lemma delete_old_files_safe:
  assumes "\<not> blocked e (uploaded_filename files ProfilePic) (profilePic prof) s"
      and "\<not> blocked e (uploaded_filename files ProfilePic2) (profilePic2 prof) s"
      and "\<not> blocked e (uploaded_filename files ResumePdf) (pdf prof) s"
      and "\<not> blocked e (uploaded_filename files Video) (video prof) s"
  shows "delete_old_files e files prof s =
     (None, s\<lparr>fs := fs s
                 - reclaimed e (uploaded_filename files ProfilePic) (profilePic prof)
                 - reclaimed e (uploaded_filename files ProfilePic2) (profilePic2 prof)
                 - reclaimed e (uploaded_filename files ResumePdf) (pdf prof)
                 - reclaimed e (uploaded_filename files Video) (video prof)\<rparr>)"
  using assms by (simp add: delete_old_files_def reclaim_closed)

lemma delete_old_files_blocked:
  assumes "blocked e (uploaded_filename files ProfilePic) (profilePic prof) s
           \<or> blocked e (uploaded_filename files ProfilePic2) (profilePic2 prof) s
           \<or> blocked e (uploaded_filename files ResumePdf) (pdf prof) s
           \<or> blocked e (uploaded_filename files Video) (video prof) s"
  shows "\<exists>s'. delete_old_files e files prof s = (Some EISDIR, s')"
  using assms by (auto simp add: delete_old_files_def reclaim_closed)

lemma delete_old_files_frame:
  assumes "delete_old_files e files prof s = (err, s')"
  shows "profiles s' = profiles s" "users s' = users s" "educations s' = educations s"
    "experiences s' = experiences s" "dirs s' = dirs s" "fs s' \<subseteq> fs s"
  using assms
  by (auto simp add: delete_old_files_def reclaim_closed split: if_splits)

text \<open>
  C8, as the code has it. A null, absent or empty path leaves the state as it is; so
  does a path whose resolved target is not on the storage backend. A path that resolves
  to a regular file removes that file. A path that resolves to a directory raises: the
  helper is not total. Whenever the helper returns, the collections and the directories
  are untouched, a file that is gone is the resolved target, and a second call with the
  same path returns the same state. Whenever it raises, the resolved target is a
  directory.
\<close>

theorem C8_deleteOldFile_raises_only_on_directory:
  "(\<not> truthy filePath \<longrightarrow> deleteOldFile e filePath s = Inr s)
   \<and> (\<forall>p. filePath = Some p \<and> \<not> existsSync (fs s) (dirs s) (fullPath e p)
          \<longrightarrow> deleteOldFile e filePath s = Inr s)
   \<and> (\<forall>p. filePath = Some p \<and> p \<noteq> [] \<and> fullPath e p \<in> fs s
            \<and> without_trailing (fullPath e p) \<notin> dirs s
          \<longrightarrow> deleteOldFile e filePath s = Inr (s\<lparr>fs := fs s - {fullPath e p}\<rparr>))
   \<and> (\<forall>p. filePath = Some p \<and> p \<noteq> [] \<and> without_trailing (fullPath e p) \<in> dirs s
          \<longrightarrow> deleteOldFile e filePath s = Inl EISDIR)
   \<and> (\<forall>s'. deleteOldFile e filePath s = Inr s'
          \<longrightarrow> profiles s' = profiles s \<and> users s' = users s
              \<and> educations s' = educations s \<and> experiences s' = experiences s
              \<and> dirs s' = dirs s \<and> fs s' \<subseteq> fs s
              \<and> (\<forall>f \<in> fs s - fs s'. \<exists>p. filePath = Some p \<and> p \<noteq> [] \<and> f = fullPath e p)
              \<and> deleteOldFile e filePath s' = Inr s')
   \<and> (\<forall>err. deleteOldFile e filePath s = Inl err
          \<longrightarrow> err = EISDIR
              \<and> (\<exists>p. filePath = Some p \<and> p \<noteq> [] \<and> without_trailing (fullPath e p) \<in> dirs s))"
proof -
  have falsy: "\<not> truthy filePath \<longrightarrow> deleteOldFile e filePath s = Inr s"
    by (simp add: deleteOldFile_falsy)
  have absent: "\<forall>p. filePath = Some p \<and> \<not> existsSync (fs s) (dirs s) (fullPath e p)
          \<longrightarrow> deleteOldFile e filePath s = Inr s"
    by (simp add: deleteOldFile_closed existsSync_def)
  have present: "\<forall>p. filePath = Some p \<and> p \<noteq> [] \<and> fullPath e p \<in> fs s
            \<and> without_trailing (fullPath e p) \<notin> dirs s
          \<longrightarrow> deleteOldFile e filePath s = Inr (s\<lparr>fs := fs s - {fullPath e p}\<rparr>)"
    by (simp add: deleteOldFile_closed)
  have directory: "\<forall>p. filePath = Some p \<and> p \<noteq> [] \<and> without_trailing (fullPath e p) \<in> dirs s
          \<longrightarrow> deleteOldFile e filePath s = Inl EISDIR"
    by (simp add: deleteOldFile_closed)
  have returns: "\<forall>s'. deleteOldFile e filePath s = Inr s'
          \<longrightarrow> profiles s' = profiles s \<and> users s' = users s
              \<and> educations s' = educations s \<and> experiences s' = experiences s
              \<and> dirs s' = dirs s \<and> fs s' \<subseteq> fs s
              \<and> (\<forall>f \<in> fs s - fs s'. \<exists>p. filePath = Some p \<and> p \<noteq> [] \<and> f = fullPath e p)
              \<and> deleteOldFile e filePath s' = Inr s'"
    by (cases filePath) (auto simp add: deleteOldFile_closed split: if_splits)
  have raises: "\<forall>err. deleteOldFile e filePath s = Inl err
          \<longrightarrow> err = EISDIR
              \<and> (\<exists>p. filePath = Some p \<and> p \<noteq> [] \<and> without_trailing (fullPath e p) \<in> dirs s)"
    by (cases filePath) (auto simp add: deleteOldFile_closed split: if_splits)
  show ?thesis
    by (rule conjI [OF falsy conjI [OF absent conjI [OF present conjI [OF directory
          conjI [OF returns raises]]]]])
qed

theorem C8_witness:
  "\<not> truthy None \<and> deleteOldFile app_env None s0 = Inr s0
   \<and> \<not> existsSync (fs s0) (dirs s0) (fullPath app_env ''/uploads/images/9-gone.png'')
   \<and> deleteOldFile app_env (Some ''/uploads/images/9-gone.png'') s0 = Inr s0
   \<and> fullPath app_env ''/uploads/images/1-old.png'' \<in> fs s0
   \<and> (\<exists>s'. deleteOldFile app_env (Some ''/uploads/images/1-old.png'') s0 = Inr s'
          \<and> ''/app/uploads/images/1-old.png'' \<notin> fs s'
          \<and> ''/app/uploads/pdfs/1-cv.pdf'' \<in> fs s'
          \<and> deleteOldFile app_env (Some ''/uploads/images/1-old.png'') s' = Inr s')
   \<and> without_trailing (fullPath app_env ''/uploads/images'') \<in> dirs s0
   \<and> deleteOldFile app_env (Some ''/uploads/images'') s0 = Inl EISDIR"
proof -
  have none: "\<not> truthy None" by (simp add: truthy_def)
  have gone: "\<not> existsSync (fs s0) (dirs s0) (fullPath app_env ''/uploads/images/9-gone.png'')"
    by (simp add: eval_defs)
  have old: "fullPath app_env ''/uploads/images/1-old.png'' = ''/app/uploads/images/1-old.png''"
    by (simp add: eval_defs)
  have there: "fullPath app_env ''/uploads/images/1-old.png'' \<in> fs s0"
    "without_trailing (fullPath app_env ''/uploads/images/1-old.png'') \<notin> dirs s0"
    by (simp_all add: eval_defs)
  have dir: "without_trailing (fullPath app_env ''/uploads/images'') \<in> dirs s0"
    by (simp add: eval_defs)
  from C8_deleteOldFile_raises_only_on_directory [of None app_env s0] none
  have a: "deleteOldFile app_env None s0 = Inr s0" by blast
  from C8_deleteOldFile_raises_only_on_directory
         [of "Some ''/uploads/images/9-gone.png''" app_env s0] gone
  have b: "deleteOldFile app_env (Some ''/uploads/images/9-gone.png'') s0 = Inr s0" by blast
  from C8_deleteOldFile_raises_only_on_directory
         [of "Some ''/uploads/images/1-old.png''" app_env s0] there
  have run: "deleteOldFile app_env (Some ''/uploads/images/1-old.png'') s0
               = Inr (s0\<lparr>fs := fs s0 - {fullPath app_env ''/uploads/images/1-old.png''}\<rparr>)"
    by blast
  with C8_deleteOldFile_raises_only_on_directory
         [of "Some ''/uploads/images/1-old.png''" app_env s0]
  have again: "deleteOldFile app_env (Some ''/uploads/images/1-old.png'')
                 (s0\<lparr>fs := fs s0 - {fullPath app_env ''/uploads/images/1-old.png''}\<rparr>)
               = Inr (s0\<lparr>fs := fs s0 - {fullPath app_env ''/uploads/images/1-old.png''}\<rparr>)"
    by blast
  have c: "\<exists>s'. deleteOldFile app_env (Some ''/uploads/images/1-old.png'') s0 = Inr s'
          \<and> ''/app/uploads/images/1-old.png'' \<notin> fs s'
          \<and> ''/app/uploads/pdfs/1-cv.pdf'' \<in> fs s'
          \<and> deleteOldFile app_env (Some ''/uploads/images/1-old.png'') s' = Inr s'"
    using run again by (simp add: old) (simp add: s0_def)
  from C8_deleteOldFile_raises_only_on_directory [of "Some ''/uploads/images''" app_env s0] dir
  have d: "deleteOldFile app_env (Some ''/uploads/images'') s0 = Inl EISDIR" by blast
  from none a gone b there(1) c dir d show ?thesis by blast
qed

text \<open>
  C8 as stated fails: the reclaimer raises on a path that resolves to a directory, such
  as the images folder (with or without a trailing slash) or the project root.
\<close>

theorem C8_counterexample:
  "fullPath app_env ''/uploads/images'' = ''/app/uploads/images''
   \<and> ''/app/uploads/images'' \<in> dirs s0
   \<and> deleteOldFile app_env (Some ''/uploads/images'') s0 = Inl EISDIR
   \<and> deleteOldFile app_env (Some ''/uploads/images/'') s0 = Inl EISDIR
   \<and> deleteOldFile app_env (Some ''/'') s0 = Inl EISDIR"
  by (simp add: eval_defs)

subsection \<open>Upload middleware\<close>

text \<open>
  What the upload middleware does to the state: every file part is written when each
  can be, and nothing is added otherwise.
\<close>

lemma write_file_closed:
  "write_file s p = (if can_write s p then Inr (s\<lparr>fs := insert p (fs s)\<rparr>)
                     else Inl (if parent_dir p \<notin> dirs s then ENOENT else EISDIR))"
  by (simp add: write_file_def can_write_def)

lemma can_write_fs [simp]: "can_write (s\<lparr>fs := files\<rparr>) p = can_write s p"
  by (simp add: can_write_def)

lemma store_files_ok:
  assumes "\<forall>sl \<in> set sls. case fparts sl of None \<Rightarrow> True
             | Some file \<Rightarrow> can_write s (disk_location e (stored_as (now sl) file))"
  shows "store_files e now fparts sls stored s =
           (None, s\<lparr>fs := fs s \<union> {disk_location e (stored_as (now sl) file) |sl file.
                                    sl \<in> set sls \<and> fparts sl = Some file}\<rparr>)"
  using assms
proof (induction sls arbitrary: stored s)
  case Nil
  show ?case by simp
next
  case (Cons sl sls)
  show ?case
  proof (cases "fparts sl")
    case None
    have "{disk_location e (stored_as (now sl') file) |sl' file.
             sl' \<in> set (sl # sls) \<and> fparts sl' = Some file}
          = {disk_location e (stored_as (now sl') file) |sl' file.
             sl' \<in> set sls \<and> fparts sl' = Some file}"
      using None by auto
    with Cons None show ?thesis by simp
  next
    case (Some up)
    let ?p = "disk_location e (stored_as (now sl) up)"
    have "{disk_location e (stored_as (now sl') file) |sl' file.
             sl' \<in> set (sl # sls) \<and> fparts sl' = Some file}
          = insert ?p {disk_location e (stored_as (now sl') file) |sl' file.
             sl' \<in> set sls \<and> fparts sl' = Some file}"
      using Some by auto
    moreover have "\<forall>sl \<in> set sls. case fparts sl of None \<Rightarrow> True
             | Some file \<Rightarrow> can_write (s\<lparr>fs := insert ?p (fs s)\<rparr>)
                               (disk_location e (stored_as (now sl) file))"
      using Cons.prems by (simp cong: option.case_cong)
    ultimately show ?thesis
      using Cons.IH [of "s\<lparr>fs := insert ?p (fs s)\<rparr>" "?p # stored"] Cons.prems Some
      by (simp add: write_file_closed)
  qed
qed

lemma store_files_frame:
  assumes "store_files e now fparts sls stored s = (err, s')"
  shows "profiles s' = profiles s \<and> users s' = users s \<and> educations s' = educations s
         \<and> experiences s' = experiences s \<and> dirs s' = dirs s"
  using assms
proof (induction sls arbitrary: stored s)
  case Nil
  then show ?case by simp
next
  case (Cons sl sls)
  show ?case
  proof (cases "fparts sl")
    case None
    with Cons show ?thesis by simp
  next
    case (Some up)
    let ?p = "disk_location e (stored_as (now sl) up)"
    show ?thesis
    proof (cases "can_write s ?p")
      case True
      with Cons.prems Some
      have "store_files e now fparts sls (?p # stored) (s\<lparr>fs := insert ?p (fs s)\<rparr>) = (err, s')"
        by (simp add: write_file_closed)
      from Cons.IH [OF this] show ?thesis by simp
    next
      case False
      with Cons.prems Some show ?thesis by (auto simp add: write_file_closed)
    qed
  qed
qed

lemma store_files_fail:
  assumes "\<not> (\<forall>sl \<in> set sls. case fparts sl of None \<Rightarrow> True
             | Some file \<Rightarrow> can_write s (disk_location e (stored_as (now sl) file)))"
      and "fs s \<subseteq> F \<union> set stored"
  shows "\<exists>err s'. store_files e now fparts sls stored s = (Some err, s') \<and> fs s' \<subseteq> F"
  using assms
proof (induction sls arbitrary: stored s)
  case Nil
  then show ?case by simp
next
  case (Cons sl sls)
  show ?case
  proof (cases "fparts sl")
    case None
    with Cons.prems have "\<not> (\<forall>sl \<in> set sls. case fparts sl of None \<Rightarrow> True
             | Some file \<Rightarrow> can_write s (disk_location e (stored_as (now sl) file)))"
      by simp
    from Cons.IH [OF this Cons.prems(2)] None show ?thesis by simp
  next
    case (Some up)
    let ?p = "disk_location e (stored_as (now sl) up)"
    show ?thesis
    proof (cases "can_write s ?p")
      case False
      with Some Cons.prems(2) show ?thesis
        by (auto simp add: write_file_closed)
    next
      case True
      with Cons.prems(1) Some
      have "\<not> (\<forall>sl \<in> set sls. case fparts sl of None \<Rightarrow> True
             | Some file \<Rightarrow> can_write (s\<lparr>fs := insert ?p (fs s)\<rparr>)
                               (disk_location e (stored_as (now sl) file)))"
        by (simp cong: option.case_cong)
      moreover have "fs (s\<lparr>fs := insert ?p (fs s)\<rparr>) \<subseteq> F \<union> set (?p # stored)"
        using Cons.prems(2) by auto
      ultimately show ?thesis
        using Cons.IH [of "s\<lparr>fs := insert ?p (fs s)\<rparr>" "?p # stored"] Some True
        by (simp add: write_file_closed)
    qed
  qed
qed

lemma all_slots_complete: "sl \<in> set all_slots"
  by (cases sl) (simp_all add: all_slots_def)

lemma upload_fields_ok:
  assumes "storable e now fparts s"
  shows "upload_fields e now fparts s =
           (None, (\<lambda>sl. map_option (stored_as (now sl)) (fparts sl)),
            s\<lparr>fs := fs s \<union> written e now fparts\<rparr>)"
proof -
  have "{disk_location e (stored_as (now sl) file) |sl file.
           sl \<in> set all_slots \<and> fparts sl = Some file} = written e now fparts"
    by (simp add: written_def all_slots_complete)
  with store_files_ok [where sls = all_slots and fparts = fparts and s = s and e = e and now = now and stored = "[]"] assms show ?thesis
    by (simp add: upload_fields_def storable_def)
qed

lemma upload_fields_fail:
  assumes "\<not> storable e now fparts s"
  shows "\<exists>err s'. upload_fields e now fparts s
                     = (Some err, (\<lambda>sl. map_option (stored_as (now sl)) (fparts sl)), s')
           \<and> profiles s' = profiles s \<and> users s' = users s \<and> educations s' = educations s
           \<and> experiences s' = experiences s \<and> dirs s' = dirs s \<and> fs s' \<subseteq> fs s"
proof -
  from store_files_fail [where sls = all_slots and fparts = fparts and s = s and e = e and now = now and F = "fs s" and stored = "[]"] assms
  obtain err s' where run: "store_files e now fparts all_slots [] s = (Some err, s')"
    and sub: "fs s' \<subseteq> fs s"
    by (auto simp add: storable_def)
  from store_files_frame [OF run] run sub show ?thesis
    by (simp add: upload_fields_def)
qed

lemma update_profile_not_storable:
  assumes "\<not> storable e now (file_parts req) s"
  shows "\<exists>err s'. update_profile e now req s = (Response 500 (Unhandled err), s')
           \<and> profiles s' = profiles s \<and> users s' = users s \<and> educations s' = educations s
           \<and> experiences s' = experiences s \<and> dirs s' = dirs s \<and> fs s' \<subseteq> fs s"
  using upload_fields_fail [OF assms] by (auto simp add: update_profile_def)

lemma update_profile_storable:
  assumes "storable e now (file_parts req) s"
  shows "update_profile e now req s =
           update_profile_handler e (caller req) (body req)
             (\<lambda>sl. map_option (stored_as (now sl)) (file_parts req sl))
             (s\<lparr>fs := fs s \<union> written e now (file_parts req)\<rparr>)"
  by (simp add: update_profile_def upload_fields_ok [OF assms])

lemma storable_empty [simp]: "storable e now Map.empty s"
  by (simp add: storable_def)

lemma written_empty [simp]: "written e now Map.empty = {}"
  by (simp add: written_def)

lemma uploaded_filename_empty [simp]: "uploaded_filename (\<lambda>sl. None) sl = None"
  by (simp add: uploaded_filename_def)

subsection \<open>Profile handler\<close>

text \<open>The merge of the fields, and the handler on a valid request, branch by branch.\<close>

lemma uploaded_filename_stored:
  "uploaded_filename (\<lambda>sl. map_option (stored_as (now sl)) (fparts sl)) sl
     = map_option (storage_filename (now sl)) (fparts sl)"
  by (cases "fparts sl")
     (simp_all add: uploaded_filename_def stored_as_def storage_filename_nonempty)

lemma update_user_users:
  "users (update_user uid found b s) =
     (case found of
        None \<Rightarrow> users s
      | Some u \<Rightarrow> (users s)(uid \<mapsto>
          u\<lparr>user.name := js_or (form.name b) (user.name u),
            user.phoneNumber := js_or (form.phoneNumber b) (user.phoneNumber u),
            user.degree := js_or (form.degree b) (user.degree u),
            user.birthday := js_or (form.birthday b) (user.birthday u),
            user.address := js_or (form.address b) (user.address u),
            user.experience := js_or (form.experience b) (user.experience u)\<rparr>))"
  by (simp add: update_user_def split: option.splits)

lemma js_or_falsy: "\<not> truthy a \<Longrightarrow> js_or a b = b"
  by (simp add: js_or_def)

lemma js_or_keeps_truthy: "truthy b \<Longrightarrow> truthy (js_or a b)"
  by (simp add: js_or_def)

lemma updated_profile_slot:
  "slot_path sl (updated_profile prof nm (\<lambda>sl. map_option (stored_as (now sl)) (fparts sl)) b) =
     (case fparts sl of
        None \<Rightarrow> slot_path sl prof
      | Some file \<Rightarrow> Some (''/'' @ slot_bucket sl @ ''/'' @ storage_filename (now sl) file))"
  by (cases sl; cases "fparts sl")
     (simp_all add: slot_path_def slot_bucket_def updated_profile_def new_or_old_def truthy_def
        uploaded_filename_stored storage_filename_nonempty)

lemma new_profile_slot:
  "slot_path sl (new_profile uid nm (\<lambda>sl. map_option (stored_as (now sl)) (fparts sl)) b) =
     map_option (\<lambda>file. ''/'' @ slot_bucket sl @ ''/'' @ storage_filename (now sl) file) (fparts sl)"
  by (cases sl; cases "fparts sl")
     (simp_all add: slot_path_def slot_bucket_def new_profile_def new_or_old_def truthy_def
        uploaded_filename_stored storage_filename_nonempty)

lemma update_user_frame:
  "fs (update_user uid found b s) = fs s"
  "dirs (update_user uid found b s) = dirs s"
  "profiles (update_user uid found b s) = profiles s"
  "educations (update_user uid found b s) = educations s"
  "experiences (update_user uid found b s) = experiences s"
  by (simp_all add: update_user_def split: option.splits)

lemma blocked_stored:
  "blocked e (uploaded_filename (\<lambda>sl. map_option (stored_as (now sl)) (fparts sl)) sl) old s
     \<longleftrightarrow> fparts sl \<noteq> None \<and> (\<exists>p. old = Some p \<and> p \<noteq> [] \<and> without_trailing (fullPath e p) \<in> dirs s)"
  by (cases "fparts sl"; cases old)
     (simp_all add: blocked_def uploaded_filename_stored truthy_def storage_filename_nonempty)

lemma reclaim_safe_iff:
  "reclaim_safe e fparts prof s \<longleftrightarrow>
     (\<forall>sl up p. fparts sl = Some up \<and> slot_path sl prof = Some p \<and> p \<noteq> []
        \<longrightarrow> without_trailing (fullPath e p) \<notin> dirs s)"
proof -
  have "reclaim_safe e fparts prof s \<longleftrightarrow>
     (\<forall>sl. case fparts sl of
          None \<Rightarrow> True
        | Some up \<Rightarrow>
            (case slot_path sl prof of
               None \<Rightarrow> True
             | Some p \<Rightarrow> p = [] \<or> without_trailing (fullPath e p) \<notin> dirs s))"
    by (simp add: reclaim_safe_def Ball_def all_slots_complete)
  also have "\<dots> \<longleftrightarrow> (\<forall>sl up p. fparts sl = Some up \<and> slot_path sl prof = Some p \<and> p \<noteq> []
        \<longrightarrow> without_trailing (fullPath e p) \<notin> dirs s)"
    by (auto split: option.splits)
  finally show ?thesis .
qed

lemma reclaim_safe_blocked:
  "reclaim_safe e fparts prof s \<longleftrightarrow>
     (\<forall>sl. \<not> blocked e (uploaded_filename (\<lambda>sl. map_option (stored_as (now sl)) (fparts sl)) sl)
               (slot_path sl prof) s)"
  unfolding blocked_stored reclaim_safe_iff by (metis not_Some_eq)

lemma reclaim_safe_fs [simp]: "reclaim_safe e fparts prof (s\<lparr>fs := files\<rparr>) = reclaim_safe e fparts prof s"
  by (simp add: reclaim_safe_iff)

lemma storable_fs [simp]: "storable e now fparts (s\<lparr>fs := files\<rparr>) = storable e now fparts s"
  by (simp add: storable_def cong: option.case_cong)

lemma reclaim_safe_empty [simp]: "reclaim_safe e Map.empty prof s"
  by (simp add: reclaim_safe_def)

text \<open>The handler on a valid request, in its branches.\<close>

lemma handler_existing:
  assumes "uid \<noteq> []" and "form.name b = Some nm" and "nm \<noteq> []"
      and "profiles s uid = Some prof"
      and "reclaim_safe e fparts prof s"
      and "files = (\<lambda>sl. map_option (stored_as (now sl)) (fparts sl))"
  shows "update_profile_handler e (Some uid) b files s =
           (Response 200 (Saved (updated_profile prof nm files b)),
            update_user uid (users s uid) b
              (s\<lparr>fs := fs s
                     - reclaimed e (uploaded_filename files ProfilePic) (profilePic prof)
                     - reclaimed e (uploaded_filename files ProfilePic2) (profilePic2 prof)
                     - reclaimed e (uploaded_filename files ResumePdf) (pdf prof)
                     - reclaimed e (uploaded_filename files Video) (video prof),
                 profiles := (profiles s)(uid \<mapsto> updated_profile prof nm files b)\<rparr>))"
proof -
  have "\<not> blocked e (uploaded_filename files sl) (slot_path sl prof) s" for sl
    using assms(5) unfolding assms(6) reclaim_safe_blocked [of e fparts prof s now] by simp
  from this [of ProfilePic] this [of ProfilePic2] this [of ResumePdf] this [of Video]
  have "delete_old_files e files prof s =
     (None, s\<lparr>fs := fs s
                 - reclaimed e (uploaded_filename files ProfilePic) (profilePic prof)
                 - reclaimed e (uploaded_filename files ProfilePic2) (profilePic2 prof)
                 - reclaimed e (uploaded_filename files ResumePdf) (pdf prof)
                 - reclaimed e (uploaded_filename files Video) (video prof)\<rparr>)"
    by (intro delete_old_files_safe) (simp_all add: slot_path_def)
  with assms(1-4) show ?thesis
    by (simp add: update_profile_handler_def Let_def)
qed

lemma handler_blocked:
  assumes "uid \<noteq> []" and "form.name b = Some nm" and "nm \<noteq> []"
      and "profiles s uid = Some prof"
      and "\<not> reclaim_safe e fparts prof s"
      and "files = (\<lambda>sl. map_option (stored_as (now sl)) (fparts sl))"
  shows "\<exists>s'. update_profile_handler e (Some uid) b files s
                 = (Response 500 (ServerError EISDIR), s')
           \<and> profiles s' = profiles s \<and> users s' = users s \<and> educations s' = educations s
           \<and> experiences s' = experiences s \<and> dirs s' = dirs s \<and> fs s' \<subseteq> fs s"
proof -
  from assms(5) obtain sl where "blocked e (uploaded_filename files sl) (slot_path sl prof) s"
    unfolding assms(6) reclaim_safe_blocked [of e fparts prof s now] by blast
  then have "blocked e (uploaded_filename files ProfilePic) (profilePic prof) s
           \<or> blocked e (uploaded_filename files ProfilePic2) (profilePic2 prof) s
           \<or> blocked e (uploaded_filename files ResumePdf) (pdf prof) s
           \<or> blocked e (uploaded_filename files Video) (video prof) s"
    by (cases sl) (simp_all add: slot_path_def)
  from delete_old_files_blocked [OF this]
  obtain s' where run: "delete_old_files e files prof s = (Some EISDIR, s')" ..
  from delete_old_files_frame [OF run] run assms(1-4) show ?thesis
    by (simp add: update_profile_handler_def Let_def)
qed

lemma handler_new:
  assumes "uid \<noteq> []" and "form.name b = Some nm" and "nm \<noteq> []"
      and "profiles s uid = None"
  shows "update_profile_handler e (Some uid) b files s =
           (Response 200 (Saved (new_profile uid nm files b)),
            update_user uid (users s uid) b
              (s\<lparr>profiles := (profiles s)(uid \<mapsto> new_profile uid nm files b)\<rparr>))"
  using assms by (simp add: update_profile_handler_def Let_def)

text \<open>
  A valid request goes through when its files can be stored and no path to reclaim
  resolves to a directory; this is what it leaves behind, whichever branch the handler
  takes.
\<close>

lemma update_profile_valid:
  assumes "caller req = Some uid" and "uid \<noteq> []"
      and "form.name (body req) = Some nm" and "nm \<noteq> []"
      and "storable e now (file_parts req) s"
      and "\<forall>prof. profiles s uid = Some prof \<longrightarrow> reclaim_safe e (file_parts req) prof s"
  shows "\<exists>saved s'. update_profile e now req s = (Response 200 (Saved saved), s')
           \<and> profiles s' = (profiles s)(uid \<mapsto> saved)
           \<and> saved = (case profiles s uid of
                        Some prof \<Rightarrow> updated_profile prof nm
                           (\<lambda>sl. map_option (stored_as (now sl)) (file_parts req sl)) (body req)
                      | None \<Rightarrow> new_profile uid nm
                           (\<lambda>sl. map_option (stored_as (now sl)) (file_parts req sl)) (body req))
           \<and> users s' = users (update_user uid (users s uid) (body req) s)
           \<and> educations s' = educations s \<and> experiences s' = experiences s
           \<and> dirs s' = dirs s"
proof (cases "profiles s uid")
  case None
  let ?mid = "s\<lparr>fs := fs s \<union> written e now (file_parts req)\<rparr>"
  have "profiles ?mid uid = None" using None by simp
  from handler_new [OF assms(2,3,4) this] None show ?thesis
    by (simp add: update_profile_storable [OF assms(5)] assms(1) update_user_frame
        update_user_users split: option.splits)
next
  case (Some prof)
  let ?mid = "s\<lparr>fs := fs s \<union> written e now (file_parts req)\<rparr>"
  have "profiles ?mid uid = Some prof" using Some by simp
  moreover have "reclaim_safe e (file_parts req) prof ?mid"
    using assms(6) Some by simp
  ultimately show ?thesis
    using handler_existing [OF assms(2,3,4), of ?mid prof e "file_parts req" _ now] Some
    by (simp add: update_profile_storable [OF assms(5)] assms(1) update_user_frame
        update_user_users split: option.splits)
qed

text \<open>
  A valid request that does not go through is answered 500 and changes no collection:
  it fails in the upload middleware, or in the reclaimer before anything is saved.
\<close>

lemma update_profile_fails:
  assumes "caller req = Some uid" and "uid \<noteq> []"
      and "form.name (body req) = Some nm" and "nm \<noteq> []"
      and "\<not> (storable e now (file_parts req) s
              \<and> (\<forall>prof. profiles s uid = Some prof \<longrightarrow> reclaim_safe e (file_parts req) prof s))"
  shows "\<exists>r s'. update_profile e now req s = (r, s') \<and> status r = 500
           \<and> profiles s' = profiles s \<and> users s' = users s \<and> educations s' = educations s
           \<and> experiences s' = experiences s \<and> dirs s' = dirs s
           \<and> fs s' \<subseteq> fs s \<union> written e now (file_parts req)"
proof (cases "storable e now (file_parts req) s")
  case False
  from update_profile_not_storable [OF False] show ?thesis by auto
next
  case True
  with assms(5) obtain prof where prof: "profiles s uid = Some prof"
    and unsafe: "\<not> reclaim_safe e (file_parts req) prof s" by blast
  let ?mid = "s\<lparr>fs := fs s \<union> written e now (file_parts req)\<rparr>"
  have "profiles ?mid uid = Some prof" using prof by simp
  moreover have "\<not> reclaim_safe e (file_parts req) prof ?mid" using unsafe by simp
  ultimately show ?thesis
    using handler_blocked [OF assms(2,3,4), of ?mid prof e "file_parts req" _ now]
    by (auto simp add: update_profile_storable [OF True] assms(1))
qed

text \<open>The files after a valid update of an existing Profile that goes through.\<close>

lemma update_existing_fs:
  assumes "caller req = Some uid" and "uid \<noteq> []"
      and "form.name (body req) = Some nm" and "nm \<noteq> []"
      and "profiles s uid = Some prof"
      and "storable e now (file_parts req) s"
      and "reclaim_safe e (file_parts req) prof s"
  shows "fs (snd (update_profile e now req s)) =
           (fs s \<union> written e now (file_parts req))
           - {fullPath e p |sl p. file_parts req sl \<noteq> None \<and> slot_path sl prof = Some p \<and> p \<noteq> []}"
proof -
  let ?files = "\<lambda>sl. map_option (stored_as (now sl)) (file_parts req sl)"
  let ?mid = "s\<lparr>fs := fs s \<union> written e now (file_parts req)\<rparr>"
  have prof: "profiles ?mid uid = Some prof"
    using assms(5) by simp
  have safe: "reclaim_safe e (file_parts req) prof ?mid"
    using assms(7) by simp
  have rec: "reclaimed e (uploaded_filename ?files sl) (slot_path sl prof) =
          {fullPath e p |p. file_parts req sl \<noteq> None \<and> slot_path sl prof = Some p \<and> p \<noteq> []}" for sl
    by (cases "file_parts req sl"; cases "slot_path sl prof")
       (auto simp add: reclaimed_def uploaded_filename_stored truthy_def storage_filename_nonempty)
  have all: "{fullPath e p |sl p. file_parts req sl \<noteq> None \<and> slot_path sl prof = Some p \<and> p \<noteq> []}
      = (\<Union>sl \<in> {ProfilePic, ProfilePic2, ResumePdf, Video}.
           reclaimed e (uploaded_filename ?files sl) (slot_path sl prof))"
  proof -
    have "sl \<in> {ProfilePic, ProfilePic2, ResumePdf, Video}" for sl by (cases sl) simp_all
    then show ?thesis unfolding rec by blast
  qed
  have "fs (snd (update_profile e now req s)) =
          fs ?mid - reclaimed e (uploaded_filename ?files ProfilePic) (slot_path ProfilePic prof)
                  - reclaimed e (uploaded_filename ?files ProfilePic2) (slot_path ProfilePic2 prof)
                  - reclaimed e (uploaded_filename ?files ResumePdf) (slot_path ResumePdf prof)
                  - reclaimed e (uploaded_filename ?files Video) (slot_path Video prof)"
    using handler_existing [OF assms(2,3,4) prof safe refl]
    by (simp add: update_profile_storable [OF assms(6)] assms(1) update_user_frame slot_path_def)
  also have "\<dots> = (fs s \<union> written e now (file_parts req))
           - {fullPath e p |sl p. file_parts req sl \<noteq> None \<and> slot_path sl prof = Some p \<and> p \<noteq> []}"
    unfolding all by auto
  finally show ?thesis .
qed

text \<open>
  Reclamation, where it works: after a valid update of an existing Profile that goes
  through, the path that a re-uploaded slot held resolves to no file; the saved Profile
  holds the slot's bucket and the generated name in that slot; a slot without upload
  keeps its path; and a file is only removed when a re-uploaded slot's former path
  resolves to it.
\<close>

lemma update_existing_reclaims:
  assumes "caller req = Some uid" and "uid \<noteq> []"
      and "form.name (body req) = Some nm" and "nm \<noteq> []"
      and "profiles s uid = Some prof"
      and "storable e now (file_parts req) s"
      and "reclaim_safe e (file_parts req) prof s"
  shows "\<exists>saved s'. update_profile e now req s = (Response 200 (Saved saved), s')
           \<and> profiles s' uid = Some saved
           \<and> (\<forall>sl up p. file_parts req sl = Some up \<and> slot_path sl prof = Some p \<and> p \<noteq> []
                 \<longrightarrow> fullPath e p \<notin> fs s')
           \<and> (\<forall>sl up. file_parts req sl = Some up
                 \<longrightarrow> slot_path sl saved
                       = Some (''/'' @ slot_bucket sl @ ''/'' @ storage_filename (now sl) up))
           \<and> (\<forall>sl. file_parts req sl = None \<longrightarrow> slot_path sl saved = slot_path sl prof)
           \<and> (\<forall>f \<in> fs s \<union> written e now (file_parts req).
                 (\<forall>sl p. file_parts req sl \<noteq> None \<and> slot_path sl prof = Some p
                    \<longrightarrow> f \<noteq> fullPath e p)
                 \<longrightarrow> f \<in> fs s')"
proof -
  have safe: "\<forall>prof. profiles s uid = Some prof \<longrightarrow> reclaim_safe e (file_parts req) prof s"
    using assms(5,7) by simp
  from update_profile_valid [OF assms(1-4,6) safe] assms(5)
  obtain saved s' where run: "update_profile e now req s = (Response 200 (Saved saved), s')"
    and ps: "profiles s' = (profiles s)(uid \<mapsto> saved)"
    and sv: "saved = updated_profile prof nm
                       (\<lambda>sl. map_option (stored_as (now sl)) (file_parts req sl)) (body req)"
    by auto
  have files: "fs s' = (fs s \<union> written e now (file_parts req))
           - {fullPath e p |sl p. file_parts req sl \<noteq> None \<and> slot_path sl prof = Some p \<and> p \<noteq> []}"
    using update_existing_fs [OF assms] run by simp
  have gone: "\<forall>sl up p. file_parts req sl = Some up \<and> slot_path sl prof = Some p \<and> p \<noteq> []
                 \<longrightarrow> fullPath e p \<notin> fs s'"
    unfolding files by blast
  have set: "\<forall>sl up. file_parts req sl = Some up
                 \<longrightarrow> slot_path sl saved
                       = Some (''/'' @ slot_bucket sl @ ''/'' @ storage_filename (now sl) up)"
    by (simp add: sv updated_profile_slot)
  have kept: "\<forall>sl. file_parts req sl = None \<longrightarrow> slot_path sl saved = slot_path sl prof"
    by (simp add: sv updated_profile_slot)
  have frame: "\<forall>f \<in> fs s \<union> written e now (file_parts req).
                 (\<forall>sl p. file_parts req sl \<noteq> None \<and> slot_path sl prof = Some p
                    \<longrightarrow> f \<noteq> fullPath e p)
                 \<longrightarrow> f \<in> fs s'"
    unfolding files by blast
  from run ps gone set kept frame show ?thesis by simp
qed

lemma update_new_fs:
  assumes "caller req = Some uid" and "uid \<noteq> []"
      and "form.name (body req) = Some nm" and "nm \<noteq> []"
      and "profiles s uid = None"
      and "storable e now (file_parts req) s"
  shows "fs (snd (update_profile e now req s)) = fs s \<union> written e now (file_parts req)"
proof -
  have "profiles (s\<lparr>fs := fs s \<union> written e now (file_parts req)\<rparr>) uid = None"
    using assms(5) by simp
  from handler_new [OF assms(2,3,4) this] show ?thesis
    by (simp add: update_profile_storable [OF assms(6)] assms(1) update_user_frame)
qed

text \<open>
  The stored path, where it is right: on a valid update that goes through, a slot that
  receives a file of a media type classified into the slot's bucket is saved with a path
  that resolves to the location where the file was written; when the Profile is created
  by the update, the file is there.
\<close>

lemma matching_type_saved_path:
  assumes "caller req = Some uid" and "uid \<noteq> []"
      and "form.name (body req) = Some nm" and "nm \<noteq> []"
      and "storable e now (file_parts req) s"
      and "\<forall>prof. profiles s uid = Some prof \<longrightarrow> reclaim_safe e (file_parts req) prof s"
      and "cwd_is_root e"
      and "file_parts req sl = Some up"
      and "storage_destination up = slot_bucket sl"
  shows "\<exists>saved s'. update_profile e now req s = (Response 200 (Saved saved), s')
           \<and> profiles s' uid = Some saved
           \<and> slot_path sl saved
               = Some (''/'' @ slot_bucket sl @ ''/'' @ storage_filename (now sl) up)
           \<and> fullPath e (''/'' @ slot_bucket sl @ ''/'' @ storage_filename (now sl) up)
               = disk_location e (stored_as (now sl) up)
           \<and> (profiles s uid = None \<longrightarrow> disk_location e (stored_as (now sl) up) \<in> fs s')"
proof -
  from update_profile_valid [OF assms(1-6)]
  obtain saved s' where run: "update_profile e now req s = (Response 200 (Saved saved), s')"
    and ps: "profiles s' = (profiles s)(uid \<mapsto> saved)"
    and sv: "saved = (case profiles s uid of
                        Some prof \<Rightarrow> updated_profile prof nm
                           (\<lambda>sl. map_option (stored_as (now sl)) (file_parts req sl)) (body req)
                      | None \<Rightarrow> new_profile uid nm
                           (\<lambda>sl. map_option (stored_as (now sl)) (file_parts req sl)) (body req))"
    by blast
  have path: "slot_path sl saved
               = Some (''/'' @ slot_bucket sl @ ''/'' @ storage_filename (now sl) up)"
    using assms(8) by (cases "profiles s uid") (simp_all add: sv updated_profile_slot new_profile_slot)
  have loc: "fullPath e (''/'' @ slot_bucket sl @ ''/'' @ storage_filename (now sl) up)
               = disk_location e (stored_as (now sl) up)"
    using assms(7,9) by (rule matching_type_path_locates_file)
  have there: "disk_location e (stored_as (now sl) up) \<in> fs s'" if "profiles s uid = None"
  proof -
    have "disk_location e (stored_as (now sl) up) \<in> written e now (file_parts req)"
      using assms(8) by (auto simp add: written_def)
    with update_new_fs [OF assms(1-4) that assms(5)] run show ?thesis
      by simp
  qed
  from run ps path loc there show ?thesis by simp
qed




lemma pdf_as_picture_run:
  "update_profile app_env (\<lambda>sl. 2) (pdf_as_picture ''u1'') s0 =
     (Response 200 (Saved (u1_profile\<lparr>profile.name := ''Bob'',
                                       profilePic := Some ''/uploads/images/2-cv.pdf''\<rparr>)),
      after_pdf)"
  by (simp add: eval_defs pdf_as_picture_def pdf_file_def after_pdf_def insert_Diff_if)

subsection \<open>Claims about the profile update\<close>

text \<open>
  C1 on the code, at a PDF sent in the primary picture field by a user without a
  Profile. The middleware stores the file in \<open>uploads/pdfs\<close>, the handler records
  \<open>/uploads/images/\<close> and the generated name: the path of the created Profile
  resolves to a location where no file is, and the stored file is elsewhere.
\<close>

theorem C1_pdf_in_picture_slot_dangles:
  "profiles s0 ''u2'' = None
   \<and> storage_destination pdf_file = ''uploads/pdfs''
   \<and> disk_location app_env (stored_as 2 pdf_file) = ''/app/uploads/pdfs/2-cv.pdf''
   \<and> status (fst (update_profile app_env (\<lambda>sl. 2) (pdf_as_picture ''u2'') s0)) = 200
   \<and> map_option profilePic
        (profiles (snd (update_profile app_env (\<lambda>sl. 2) (pdf_as_picture ''u2'') s0)) ''u2'')
      = Some (Some ''/uploads/images/2-cv.pdf'')
   \<and> fullPath app_env ''/uploads/images/2-cv.pdf'' = ''/app/uploads/images/2-cv.pdf''
   \<and> ''/app/uploads/images/2-cv.pdf''
        \<notin> fs (snd (update_profile app_env (\<lambda>sl. 2) (pdf_as_picture ''u2'') s0))
   \<and> ''/app/uploads/pdfs/2-cv.pdf''
        \<in> fs (snd (update_profile app_env (\<lambda>sl. 2) (pdf_as_picture ''u2'') s0))"
  by (simp add: eval_defs pdf_as_picture_def pdf_file_def)

text \<open>
  C2 on the code, at the same mismatch on an existing Profile. The first update puts a
  PDF into the primary picture field: the earlier picture is reclaimed, and the returned
  path points at no file. The second update puts a picture into the same field: the
  returned path is right this time, but the PDF that the first update stored is still on
  the storage backend, since the reclaimer looked for it under \<open>uploads/images\<close>.
\<close>

theorem C2_pdf_in_picture_slot_not_reclaimed:
  "profilePic u1_profile = Some ''/uploads/images/1-old.png''
   \<and> status (fst (update_profile app_env (\<lambda>sl. 2) (pdf_as_picture ''u1'') s0)) = 200
   \<and> ''/app/uploads/images/1-old.png''
        \<notin> fs (snd (update_profile app_env (\<lambda>sl. 2) (pdf_as_picture ''u1'') s0))
   \<and> map_option profilePic
        (profiles (snd (update_profile app_env (\<lambda>sl. 2) (pdf_as_picture ''u1'') s0)) ''u1'')
      = Some (Some ''/uploads/images/2-cv.pdf'')
   \<and> fullPath app_env ''/uploads/images/2-cv.pdf'' = ''/app/uploads/images/2-cv.pdf''
   \<and> ''/app/uploads/images/2-cv.pdf''
        \<notin> fs (snd (update_profile app_env (\<lambda>sl. 2) (pdf_as_picture ''u1'') s0))
   \<and> ''/app/uploads/pdfs/2-cv.pdf''
        \<in> fs (snd (update_profile app_env (\<lambda>sl. 2) (pdf_as_picture ''u1'') s0))
   \<and> status (fst (update_profile app_env (\<lambda>sl. 3) new_picture
                 (snd (update_profile app_env (\<lambda>sl. 2) (pdf_as_picture ''u1'') s0)))) = 200
   \<and> map_option profilePic
        (profiles (snd (update_profile app_env (\<lambda>sl. 3) new_picture
                 (snd (update_profile app_env (\<lambda>sl. 2) (pdf_as_picture ''u1'') s0)))) ''u1'')
      = Some (Some ''/uploads/images/3-me.png'')
   \<and> ''/app/uploads/images/3-me.png''
        \<in> fs (snd (update_profile app_env (\<lambda>sl. 3) new_picture
                 (snd (update_profile app_env (\<lambda>sl. 2) (pdf_as_picture ''u1'') s0))))
   \<and> ''/app/uploads/pdfs/2-cv.pdf''
        \<in> fs (snd (update_profile app_env (\<lambda>sl. 3) new_picture
                 (snd (update_profile app_env (\<lambda>sl. 2) (pdf_as_picture ''u1'') s0))))"
proof -
  have "fullPath app_env ''/uploads/images/2-cv.pdf'' = ''/app/uploads/images/2-cv.pdf''"
    by (simp add: eval_defs)
  moreover have "update_profile app_env (\<lambda>sl. 3) new_picture after_pdf =
     (Response 200 (Saved (u1_profile\<lparr>profile.name := ''Ann'',
                                       profilePic := Some ''/uploads/images/3-me.png''\<rparr>)),
      after_pdf\<lparr>fs := insert ''/app/uploads/images/3-me.png'' (fs after_pdf),
                profiles := [''u1'' \<mapsto> u1_profile\<lparr>profile.name := ''Ann'',
                                            profilePic := Some ''/uploads/images/3-me.png''\<rparr>],
                users := [''u1'' \<mapsto> u1_user\<lparr>user.name := Some ''Ann'', user.degree := Some ''PhD''\<rparr>]\<rparr>)"
    by (simp add: eval_defs new_picture_def image_file_def after_pdf_def)
  ultimately show ?thesis
    by (simp add: pdf_as_picture_run) (simp add: after_pdf_def u1_profile_def)
qed

text \<open>
  C4. A valid profile update (resolved caller, non-empty name) with no file attached, on
  an existing Profile, answers 200 and leaves the four path fields of the persisted
  Profile as they were; no file of the storage backend is touched either.
\<close>

theorem C4_no_files_paths_unchanged:
  assumes "caller req = Some uid" and "uid \<noteq> []"
      and "form.name (body req) = Some nm" and "nm \<noteq> []"
      and "file_parts req = Map.empty"
      and "profiles s uid = Some prof"
  shows "\<exists>saved s'. update_profile e now req s = (Response 200 (Saved saved), s')
           \<and> profiles s' uid = Some saved
           \<and> profilePic saved = profilePic prof
           \<and> profilePic2 saved = profilePic2 prof
           \<and> pdf saved = pdf prof
           \<and> video saved = video prof
           \<and> fs s' = fs s"
proof -
  let ?files = "\<lambda>sl. map_option (stored_as (now sl)) (file_parts req sl)"
  have store: "storable e now (file_parts req) s"
    and safe: "reclaim_safe e (file_parts req) prof s"
    by (simp_all add: assms(5))
  have run: "update_profile e now req s
               = update_profile_handler e (Some uid) (body req) ?files s"
    by (simp add: update_profile_storable [OF store] assms(1)) (simp add: assms(5))
  have none: "reclaimed e (uploaded_filename ?files sl) old = {}" for sl old
    by (simp add: assms(5) reclaimed_def truthy_def split: option.splits)
  have keep: "new_or_old prefix (uploaded_filename ?files sl) old = old" for prefix sl old
    by (simp add: assms(5) new_or_old_def truthy_def)
  show ?thesis
    unfolding run handler_existing [OF assms(2,3,4,6) safe refl]
    by (simp add: update_user_frame none keep updated_profile_def)
qed

theorem C4_witness:
  "caller plain_update = Some ''u1'' \<and> form.name (body plain_update) = Some ''Ann B''
   \<and> file_parts plain_update = Map.empty \<and> profiles s0 ''u1'' = Some u1_profile
   \<and> (\<exists>saved s'. update_profile app_env (\<lambda>sl. 5) plain_update s0 = (Response 200 (Saved saved), s')
         \<and> profiles s' ''u1'' = Some saved
         \<and> profilePic saved = Some ''/uploads/images/1-old.png''
         \<and> profilePic2 saved = None
         \<and> pdf saved = Some ''/uploads/pdfs/1-cv.pdf''
         \<and> video saved = None
         \<and> fs s' = fs s0)"
  using C4_no_files_paths_unchanged
          [of plain_update "''u1''" "''Ann B''" s0 u1_profile app_env "\<lambda>sl. 5"]
  by (simp add: plain_update_def text_fields_def s0_def u1_profile_def)







text \<open>
  C10. The merge of \<open>aboutText\<close> and of the five descriptive User fields goes by
  truthiness. On a valid call, whatever the answer, an incoming value that is absent or
  the empty string leaves the stored value of an existing Profile or User as it was, and
  a stored value that is non-empty is never replaced by an empty or absent one: these
  fields cannot be cleared through the route. The call answers 200 with the saved
  Profile when every attached file can be stored and no path to reclaim resolves to a
  directory; a call that is answered otherwise writes no Profile and no User.
\<close>

theorem C10_falsy_value_keeps_stored_one:
  assumes "caller req = Some uid" and "uid \<noteq> []"
      and "form.name (body req) = Some nm" and "nm \<noteq> []"
  shows "\<exists>r s'. update_profile e now req s = (r, s')
           \<and> (storable e now (file_parts req) s
                \<and> (\<forall>prof. profiles s uid = Some prof
                      \<longrightarrow> reclaim_safe e (file_parts req) prof s)
               \<longrightarrow> (\<exists>saved. r = Response 200 (Saved saved) \<and> profiles s' uid = Some saved))
           \<and> (\<forall>prof. profiles s uid = Some prof \<longrightarrow>
                 (\<exists>saved. profiles s' uid = Some saved
                    \<and> (\<not> truthy (form.aboutText (body req)) \<longrightarrow>
                          profile.aboutText saved = profile.aboutText prof)
                    \<and> (truthy (profile.aboutText prof) \<longrightarrow> truthy (profile.aboutText saved))))
           \<and> (\<forall>u. users s uid = Some u \<longrightarrow>
                 (\<exists>u'. users s' uid = Some u'
                    \<and> (\<not> truthy (form.phoneNumber (body req)) \<longrightarrow>
                          user.phoneNumber u' = user.phoneNumber u)
                    \<and> (\<not> truthy (form.degree (body req)) \<longrightarrow> user.degree u' = user.degree u)
                    \<and> (\<not> truthy (form.birthday (body req)) \<longrightarrow>
                          user.birthday u' = user.birthday u)
                    \<and> (\<not> truthy (form.address (body req)) \<longrightarrow>
                          user.address u' = user.address u)
                    \<and> (\<not> truthy (form.experience (body req)) \<longrightarrow>
                          user.experience u' = user.experience u)
                    \<and> (truthy (user.phoneNumber u) \<longrightarrow> truthy (user.phoneNumber u'))
                    \<and> (truthy (user.degree u) \<longrightarrow> truthy (user.degree u'))
                    \<and> (truthy (user.birthday u) \<longrightarrow> truthy (user.birthday u'))
                    \<and> (truthy (user.address u) \<longrightarrow> truthy (user.address u'))
                    \<and> (truthy (user.experience u) \<longrightarrow> truthy (user.experience u'))))"
proof (cases "storable e now (file_parts req) s
                \<and> (\<forall>prof. profiles s uid = Some prof
                      \<longrightarrow> reclaim_safe e (file_parts req) prof s)")
  case True
  then have store: "storable e now (file_parts req) s"
    and safe: "\<forall>prof. profiles s uid = Some prof \<longrightarrow> reclaim_safe e (file_parts req) prof s"
    by simp_all
  from update_profile_valid [OF assms store safe]
  obtain saved s' where run: "update_profile e now req s = (Response 200 (Saved saved), s')"
    and ps: "profiles s' = (profiles s)(uid \<mapsto> saved)"
    and sv: "saved = (case profiles s uid of
                        Some prof \<Rightarrow> updated_profile prof nm
                           (\<lambda>sl. map_option (stored_as (now sl)) (file_parts req sl)) (body req)
                      | None \<Rightarrow> new_profile uid nm
                           (\<lambda>sl. map_option (stored_as (now sl)) (file_parts req sl)) (body req))"
    and us: "users s' = users (update_user uid (users s uid) (body req) s)"
    by blast
  have about: "profile.aboutText saved = js_or (form.aboutText (body req)) (profile.aboutText prof)"
    if "profiles s uid = Some prof" for prof
    using that sv by (simp add: updated_profile_def)
  have p: "\<forall>prof. profiles s uid = Some prof \<longrightarrow>
                 (\<exists>saved. profiles s' uid = Some saved
                    \<and> (\<not> truthy (form.aboutText (body req)) \<longrightarrow>
                          profile.aboutText saved = profile.aboutText prof)
                    \<and> (truthy (profile.aboutText prof) \<longrightarrow> truthy (profile.aboutText saved)))"
    by (simp add: ps about js_or_falsy js_or_keeps_truthy)
  have u: "\<forall>u. users s uid = Some u \<longrightarrow>
                 (\<exists>u'. users s' uid = Some u'
                    \<and> (\<not> truthy (form.phoneNumber (body req)) \<longrightarrow>
                          user.phoneNumber u' = user.phoneNumber u)
                    \<and> (\<not> truthy (form.degree (body req)) \<longrightarrow> user.degree u' = user.degree u)
                    \<and> (\<not> truthy (form.birthday (body req)) \<longrightarrow>
                          user.birthday u' = user.birthday u)
                    \<and> (\<not> truthy (form.address (body req)) \<longrightarrow>
                          user.address u' = user.address u)
                    \<and> (\<not> truthy (form.experience (body req)) \<longrightarrow>
                          user.experience u' = user.experience u)
                    \<and> (truthy (user.phoneNumber u) \<longrightarrow> truthy (user.phoneNumber u'))
                    \<and> (truthy (user.degree u) \<longrightarrow> truthy (user.degree u'))
                    \<and> (truthy (user.birthday u) \<longrightarrow> truthy (user.birthday u'))
                    \<and> (truthy (user.address u) \<longrightarrow> truthy (user.address u'))
                    \<and> (truthy (user.experience u) \<longrightarrow> truthy (user.experience u')))"
    by (simp add: us update_user_users js_or_falsy js_or_keeps_truthy)
  from run ps p u show ?thesis by simp
next
  case False
  from update_profile_fails [OF assms False]
  obtain r s' where run: "update_profile e now req s = (r, s')"
    and same: "profiles s' = profiles s" "users s' = users s"
    by blast
  from run same False show ?thesis by auto
qed

theorem C10_witness:
  "caller plain_update = Some ''u1'' \<and> form.name (body plain_update) = Some ''Ann B''
   \<and> form.aboutText (body plain_update) = Some []
   \<and> form.phoneNumber (body plain_update) = Some []
   \<and> form.address (body plain_update) = Some []
   \<and> profiles s0 ''u1'' = Some u1_profile \<and> users s0 ''u1'' = Some u1_user
   \<and> (\<exists>saved s' u'. update_profile app_env (\<lambda>sl. 5) plain_update s0
                        = (Response 200 (Saved saved), s')
         \<and> profiles s' ''u1'' = Some saved \<and> users s' ''u1'' = Some u'
         \<and> profile.aboutText saved = Some ''hello''
         \<and> user.phoneNumber u' = Some ''555''
         \<and> user.address u' = Some ''Street 1'')"
proof -
  have facts: "caller plain_update = Some ''u1''" "form.name (body plain_update) = Some ''Ann B''"
      "form.aboutText (body plain_update) = Some []"
      "form.phoneNumber (body plain_update) = Some []"
      "form.address (body plain_update) = Some []"
      "profiles s0 ''u1'' = Some u1_profile" "users s0 ''u1'' = Some u1_user"
    by (simp_all add: plain_update_def text_fields_def s0_def)
  have stored: "profile.aboutText u1_profile = Some ''hello''"
      "user.phoneNumber u1_user = Some ''555''" "user.address u1_user = Some ''Street 1''"
    by (simp_all add: u1_profile_def u1_user_def)
  have ok: "storable app_env (\<lambda>sl. 5) (file_parts plain_update) s0
              \<and> (\<forall>prof. profiles s0 ''u1'' = Some prof
                    \<longrightarrow> reclaim_safe app_env (file_parts plain_update) prof s0)"
    by (simp add: plain_update_def)
  have falsy: "\<not> truthy (form.aboutText (body plain_update))"
      "\<not> truthy (form.phoneNumber (body plain_update))"
      "\<not> truthy (form.address (body plain_update))"
    by (simp_all add: facts truthy_def)
  have "''u1'' \<noteq> []" "''Ann B'' \<noteq> []" by simp_all
  from C10_falsy_value_keeps_stored_one [OF facts(1) this(1) facts(2) this(2), of app_env "\<lambda>sl. 5" s0]
       ok facts(6,7) falsy
  obtain saved s' u' where "update_profile app_env (\<lambda>sl. 5) plain_update s0
                        = (Response 200 (Saved saved), s')"
      "profiles s' ''u1'' = Some saved" "users s' ''u1'' = Some u'"
      "profile.aboutText saved = profile.aboutText u1_profile"
      "user.phoneNumber u' = user.phoneNumber u1_user"
      "user.address u' = user.address u1_user"
    by (metis option.inject)
  with facts stored show ?thesis by simp
qed

subsection \<open>Education and experience\<close>

text \<open>Stamping sets \<open>userId\<close> and leaves the other properties alone.\<close>

lemma map_of_set_prop_same: "map_of (set_prop k v doc) k = Some v"
  by (induction doc) auto

lemma map_of_set_prop_other: "k' \<noteq> k \<Longrightarrow> map_of (set_prop k v doc) k' = map_of doc k'"
  by (induction doc) auto

lemma with_userId_owner: "map_of (with_userId uid entry) ''userId'' = Some (JStr uid)"
  by (simp add: with_userId_def map_of_set_prop_same)

lemma with_userId_other:
  "k \<noteq> ''userId'' \<Longrightarrow> map_of (with_userId uid entry) k = map_of (own_props entry) k"
  by (simp add: with_userId_def map_of_set_prop_other)

lemma lacks_with_userId:
  "k \<noteq> ''userId'' \<Longrightarrow> lacks (with_userId uid entry) k = lacks (own_props entry) k"
  by (simp add: lacks_def with_userId_other)

lemma education_valid_iff:
  "education_valid docs \<longleftrightarrow>
     (\<forall>doc \<in> set docs. \<not> lacks doc ''degreeName'' \<and> \<not> lacks doc ''collegeName''
                       \<and> \<not> lacks doc ''fromYear'' \<and> \<not> lacks doc ''toYear'')"
  by (induction docs) auto

lemma experience_valid_iff:
  "experience_valid docs \<longleftrightarrow>
     (\<forall>doc \<in> set docs. \<not> lacks doc ''designation'' \<and> \<not> lacks doc ''companyName''
                       \<and> \<not> lacks doc ''fromTime'' \<and> \<not> lacks doc ''toTime'')"
  by (induction docs) auto

text \<open>An entry that passes the validation is an object: indices are not field names.\<close>

lemma no_index_key:
  assumes "CHR ''d'' \<in> set key"
  shows "map_of (zip (map show_nat [0..<length vs]) vs) key = None"
proof -
  have "key \<notin> set (map show_nat [0..<length vs])"
  proof
    assume "key \<in> set (map show_nat [0..<length vs])"
    then obtain i where "key = show_nat i" by auto
    with assms show_nat_digits [of i] show False by auto
  qed
  then show ?thesis
    by (simp add: map_of_zip_is_None)
qed

lemma has_degreeName_is_object:
  assumes "\<not> lacks (with_userId uid entry) ''degreeName''"
  shows "\<exists>kvs. entry = JObj kvs"
proof (rule ccontr)
  assume other: "\<nexists>kvs. entry = JObj kvs"
  have "map_of (own_props entry) ''degreeName'' = None"
  proof (cases entry)
    case (JArr xs)
    have "map_of (zip (map show_nat [0..<length xs]) xs) ''degreeName'' = None"
      by (rule no_index_key) simp
    with JArr show ?thesis by simp
  next
    case (JStr str)
    have "map_of (zip (map show_nat [0..<length (map (\<lambda>c. JStr [c]) str)])
                      (map (\<lambda>c. JStr [c]) str)) ''degreeName'' = None"
      by (rule no_index_key) simp
    with JStr show ?thesis by simp
  qed (use other in simp_all)
  then have "lacks (with_userId uid entry) ''degreeName''"
    by (simp add: lacks_def with_userId_other)
  with assms show False by simp
qed

text \<open>
  C3. A submission to add-education or add-experience by a caller the middleware has
  identified, in which some entry lacks one of the four required fields of its kind (the
  field is absent, or holds a falsy value), is answered 400 and leaves the whole state,
  so in particular the caller's stored entries, as it was: the validation loop has run
  over every entry before \<open>deleteMany\<close> is reached.
\<close>

theorem C3_rejected_submission_changes_nothing:
  assumes "normalize_body newData = Some entries"
      and "entry \<in> set entries"
  shows "(key \<in> set education_fields \<and> lacks (own_props entry) key \<longrightarrow>
            add_education (Some uid) newData s =
              (Response 400 (ErrorText
                 ''Each education object must include degreeName, collegeName, fromYear, and toYear''),
               s))
       \<and> (key \<in> set experience_fields \<and> lacks (own_props entry) key \<longrightarrow>
            add_experience (Some uid) newData s =
              (Response 400 (ErrorText
                 ''Each Experience object must include Disignation, Company Name and Time.''),
               s))"
proof (intro conjI impI)
  assume k: "key \<in> set education_fields \<and> lacks (own_props entry) key"
  then have "key \<noteq> ''userId''" by (auto simp add: education_fields_def)
  with k have "lacks (with_userId uid entry) key" by (simp add: lacks_with_userId)
  with k assms(2) have "\<not> education_valid (map (with_userId uid) entries)"
    by (auto simp add: education_valid_iff education_fields_def)
  with assms(1) show "add_education (Some uid) newData s =
              (Response 400 (ErrorText
                 ''Each education object must include degreeName, collegeName, fromYear, and toYear''),
               s)"
    by (simp add: add_education_def)
next
  assume k: "key \<in> set experience_fields \<and> lacks (own_props entry) key"
  then have "key \<noteq> ''userId''" by (auto simp add: experience_fields_def)
  with k have "lacks (with_userId uid entry) key" by (simp add: lacks_with_userId)
  with k assms(2) have "\<not> experience_valid (map (with_userId uid) entries)"
    by (auto simp add: experience_valid_iff experience_fields_def)
  with assms(1) show "add_experience (Some uid) newData s =
              (Response 400 (ErrorText
                 ''Each Experience object must include Disignation, Company Name and Time.''),
               s)"
    by (simp add: add_experience_def)
qed

theorem C3_witness:
  "normalize_body incomplete_education
     = Some [bsc, JObj [(''degreeName'', JStr ''MA''), (''fromYear'', JNum 2023), (''toYear'', JNum 2024)]]
   \<and> ''collegeName'' \<in> set education_fields
   \<and> lacks (own_props (JObj [(''degreeName'', JStr ''MA''), (''fromYear'', JNum 2023), (''toYear'', JNum 2024)])) ''collegeName''
   \<and> add_education (Some ''u1'') incomplete_education s0 =
        (Response 400 (ErrorText
           ''Each education object must include degreeName, collegeName, fromYear, and toYear''),
         s0)
   \<and> normalize_body incomplete_experience = Some [incomplete_experience]
   \<and> ''companyName'' \<in> set experience_fields
   \<and> lacks (own_props incomplete_experience) ''companyName''
   \<and> add_experience (Some ''u1'') incomplete_experience s0 =
        (Response 400 (ErrorText
           ''Each Experience object must include Disignation, Company Name and Time.''),
         s0)"
  using C3_rejected_submission_changes_nothing
          [of incomplete_education
              "[bsc, JObj [(''degreeName'', JStr ''MA''), (''fromYear'', JNum 2023), (''toYear'', JNum 2024)]]"
              "JObj [(''degreeName'', JStr ''MA''), (''fromYear'', JNum 2023), (''toYear'', JNum 2024)]"
              "''collegeName''" "''u1''" s0]
        C3_rejected_submission_changes_nothing
          [of incomplete_experience "[incomplete_experience]" incomplete_experience
              "''companyName''" "''u1''" s0]
  by (simp add: incomplete_education_def incomplete_experience_def normalize_body_def
      education_fields_def experience_fields_def lacks_def)

text \<open>
  C7. A valid education submission by an owner, followed by the listing. The submission
  answers 200 with the stamped entries; the listing then returns the entries that other
  owners had before, followed by the submitted entries. The documents of the listing
  that the owner owns are exactly the submitted ones, each an object as submitted with
  \<open>userId\<close> set to the owner's id; the documents of other owners are the ones that
  were there.
\<close>

theorem C7_education_round_trip:
  assumes "normalize_body newData = Some entries"
      and "education_valid (map (with_userId uid) entries)"
  shows "\<exists>s'. add_education (Some uid) newData s =
                  (Response 200 (Documents (map (with_userId uid) entries)), s')
           \<and> get_education s' =
                Response 200 (Documents
                  (filter (\<lambda>doc. map_of doc ''userId'' \<noteq> Some (JStr uid)) (educations s)
                   @ map (with_userId uid) entries))
           \<and> filter (\<lambda>doc. map_of doc ''userId'' = Some (JStr uid)) (educations s')
                = map (with_userId uid) entries
           \<and> filter (\<lambda>doc. map_of doc ''userId'' \<noteq> Some (JStr uid)) (educations s')
                = filter (\<lambda>doc. map_of doc ''userId'' \<noteq> Some (JStr uid)) (educations s)
           \<and> (\<forall>entry \<in> set entries.
                 (\<exists>kvs. entry = JObj kvs
                        \<and> with_userId uid entry = set_prop ''userId'' (JStr uid) kvs)
               \<and> map_of (with_userId uid entry) ''userId'' = Some (JStr uid)
               \<and> (\<forall>k. k \<noteq> ''userId'' \<longrightarrow>
                      map_of (with_userId uid entry) k = map_of (own_props entry) k))"
proof -
  let ?own = "\<lambda>doc. map_of doc ''userId'' = Some (JStr uid)"
  let ?new = "map (with_userId uid) entries"
  let ?s' = "s\<lparr>educations := filter (\<lambda>doc. \<not> ?own doc) (educations s) @ ?new\<rparr>"
  have run: "add_education (Some uid) newData s = (Response 200 (Documents ?new), ?s')"
    using assms by (simp add: add_education_def deleteMany_def insertMany_def Let_def)
  have all_own: "filter ?own ?new = ?new"
    by (simp add: filter_id_conv with_userId_owner)
  have none_other: "filter (\<lambda>doc. \<not> ?own doc) ?new = []"
    by (simp add: filter_empty_conv with_userId_owner)
  have objects: "\<exists>kvs. entry = JObj kvs \<and> with_userId uid entry = set_prop ''userId'' (JStr uid) kvs"
    if "entry \<in> set entries" for entry
  proof -
    from that assms(2) have "\<not> lacks (with_userId uid entry) ''degreeName''"
      by (simp add: education_valid_iff)
    from has_degreeName_is_object [OF this] show ?thesis
      by (auto simp add: with_userId_def)
  qed
  show ?thesis
    unfolding run
    by (intro exI [of _ ?s'])
       (simp add: get_education_def all_own none_other objects with_userId_owner
          with_userId_other)
qed

theorem C7_witness:
  "normalize_body (JArr [bsc]) = Some [bsc]
   \<and> education_valid (map (with_userId ''u1'') [bsc])
   \<and> (\<exists>s'. add_education (Some ''u1'') (JArr [bsc]) s0 =
               (Response 200 (Documents [[(''degreeName'', JStr ''BSc''), (''collegeName'', JStr ''X''),
                  (''fromYear'', JNum 2018), (''toYear'', JNum 2022), (''userId'', JStr ''u1'')]]), s')
          \<and> get_education s' =
               Response 200 (Documents
                 [[(''degreeName'', JStr ''BA''), (''collegeName'', JStr ''Z''),
                   (''fromYear'', JNum 2001), (''toYear'', JNum 2004), (''userId'', JStr ''u2'')],
                  [(''degreeName'', JStr ''BSc''), (''collegeName'', JStr ''X''),
                   (''fromYear'', JNum 2018), (''toYear'', JNum 2022), (''userId'', JStr ''u1'')]]))"
proof -
  have a: "normalize_body (JArr [bsc]) = Some [bsc]"
    by (simp add: normalize_body_def)
  have b: "education_valid (map (with_userId ''u1'') [bsc])"
    by (simp add: with_userId_def bsc_def lacks_def)
  from C7_education_round_trip [OF a b, of s0] a b show ?thesis
    by (auto simp add: with_userId_def bsc_def s0_def)
qed

end
